theory Spec2Isabelle
  imports Complex_Main
begin

section \<open>JavaScript values\<close>

text \<open>
  The adapters handle values of TypeScript type \<^verbatim>\<open>unknown\<close>: the result of
  \<^verbatim>\<open>JSON.parse\<close>, opaque request fields, and whatever a \<^verbatim>\<open>catch\<close> hands to
  \<^verbatim>\<open>extractErrorMessage\<close>. They are modelled by plain data: primitives, arrays, objects
  given by their own properties in insertion order, and \<^verbatim>\<open>Error\<close> instances given by their
  \<^verbatim>\<open>name\<close>, their \<^verbatim>\<open>message\<close> (both strings) and their further own properties (an
  SDK error carries the response body as \<^verbatim>\<open>error\<close>). Every property holds data: no
  value is a function and no property is an accessor, and every object has the standard
  prototype of its kind.

  A number is not-a-number, an infinity, zero, or a finite number other than zero. The
  latter is given by its sign and by the two integers \<open>s\<close> and \<open>n\<close> through which the
  language definition prints it (\<^verbatim>\<open>Number::toString\<close>): its absolute value is
  \<open>s \<times> 10\<^sup>n\<^sup>-\<^sup>k\<close>, where \<open>k\<close> is the number of decimal digits of \<open>s\<close>, and \<open>s\<close> is at
  least 1 and has no trailing zero. So 72 is \<open>Finite False 72 2\<close>, 0.5 is
  \<open>Finite False 5 0\<close> and \<open>10\<^sup>2\<^sup>1\<close> is \<open>Finite False 1 22\<close>. Every JavaScript number is
  one of these values.
\<close>

datatype jsnumber = NaN | PosInfinity | NegInfinity | Zero | Finite bool nat int

datatype jsvalue =
    JSUndefined
  | JSNull
  | JSBoolean bool
  | JSNumber jsnumber
  | JSString string
  | JSArray "jsvalue list"
  | JSObject "(string \<times> jsvalue) list"
  | JSError string string "(string \<times> jsvalue) list"

text \<open>Truthiness, as tested by \<^verbatim>\<open>if (v)\<close>.\<close>

fun truthy :: "jsvalue \<Rightarrow> bool" where
  "truthy JSUndefined = False"
| "truthy JSNull = False"
| "truthy (JSBoolean b) = b"
| "truthy (JSNumber x) = (x \<noteq> Zero \<and> x \<noteq> NaN)"
| "truthy (JSString s) = (s \<noteq> [])"
| "truthy (JSArray xs) = True"
| "truthy (JSObject ps) = True"
| "truthy (JSError n m ps) = True"

text \<open>
  \<^verbatim>\<open>if (s)\<close> on a value of type \<^verbatim>\<open>string | null | undefined\<close>: absent, null and the
  empty string are falsy.
\<close>

fun truthyString :: "string option \<Rightarrow> bool" where
  "truthyString None = False"
| "truthyString (Some s) = (s \<noteq> [])"

section \<open>MiniMax wire types\<close>

text \<open>
  From \<^verbatim>\<open>types/llm-providers/minimax/messages.ts\<close>, \<^verbatim>\<open>tools.ts\<close> and the API schema.
  A field that is optional or nullable is an \<open>option\<close>; the adapters never tell
  \<^verbatim>\<open>null\<close> from \<^verbatim>\<open>undefined\<close> there.
\<close>

datatype toolCall =
    FunctionToolCall string string string  \<comment> \<open>id, function.name, function.arguments\<close>
  | CustomToolCall string string string    \<comment> \<open>id, custom.name, custom.input\<close>

fun toolCallId :: "toolCall \<Rightarrow> string" where
  "toolCallId (FunctionToolCall i n a) = i"
| "toolCallId (CustomToolCall i n a) = i"

fun toolCallName :: "toolCall \<Rightarrow> string" where
  "toolCallName (FunctionToolCall i n a) = n"
| "toolCallName (CustomToolCall i n a) = n"

datatype contentPart =
    TextPart string
  | ImageUrlPart string string
  | InputAudioPart string string
  | FilePart "string option" "string option" "string option"

text \<open>
  The content of a tool message is a string or an array of text parts. \<^verbatim>\<open>applyUpdates\<close>
  can also write a member of \<^verbatim>\<open>Object.prototype\<close> there (see below), which is neither:
  \<open>InheritedMember k\<close> is the member named \<open>k\<close>. No request that is received carries
  one.
\<close>

datatype textContent = TextContent string | TextParts "string list" | InheritedMember string

datatype systemContent = SystemText string | SystemParts "string list"

datatype userContent = UserText string | UserParts "contentPart list"

datatype assistantContent =
    AssistantText string
  | AssistantTextParts "string list"
  | AssistantRefusalParts "string list"

record assistantMessage =
  asst_audio :: "string option"
  asst_content :: "assistantContent option"
  asst_function_call :: "(string \<times> string) option"
  asst_name :: "string option"
  asst_refusal :: "string option"
  asst_tool_calls :: "toolCall list option"

datatype message =
    DeveloperMessage systemContent "string option"
  | SystemMessage systemContent "string option"
  | UserMessage userContent "string option"
  | AssistantMessage assistantMessage
  | ToolMessage textContent string          \<comment> \<open>content, tool\_call\_id\<close>
  | FunctionMessage "string option" string

datatype role =
  RoleSystem | RoleUser | RoleAssistant | RoleTool | RoleDeveloper | RoleFunction

fun roleOf :: "message \<Rightarrow> role" where
  "roleOf (DeveloperMessage c n) = RoleDeveloper"
| "roleOf (SystemMessage c n) = RoleSystem"
| "roleOf (UserMessage c n) = RoleUser"
| "roleOf (AssistantMessage a) = RoleAssistant"
| "roleOf (ToolMessage c t) = RoleTool"
| "roleOf (FunctionMessage c n) = RoleFunction"

datatype tool =
    FunctionTool string "string option" "jsvalue option" "bool option"
  | CustomTool string "string option" jsvalue

record request =
  req_model :: string
  req_messages :: "message list"
  req_tools :: "tool list option"
  req_tool_choice :: jsvalue
  req_temperature :: jsvalue
  req_max_tokens :: jsvalue
  req_stream :: "bool option"
  req_reasoning_split :: "bool option"

section \<open>Canonical message model\<close>

text \<open>
  \<^verbatim>\<open>CommonToolResult.content\<close> is either the parsed JSON value or the message's content
  as it was.
\<close>

datatype toolResultContent = ParsedContent jsvalue | RawContent textContent

record commonToolResult =
  tr_id :: string
  tr_name :: string
  tr_content :: toolResultContent
  tr_isError :: bool

record commonMessage =
  cm_role :: role
  cm_toolCalls :: "commonToolResult list option"

record commonToolCall =
  call_id :: string
  call_name :: string
  call_arguments :: jsvalue

section \<open>Request adapter (\<^verbatim>\<open>MiniMaxRequestAdapter\<close>)\<close>

text \<open>
  The adapter's three private fields. \<^verbatim>\<open>toolResultUpdates\<close> is a
  \<^verbatim>\<open>Record<string, string>\<close>, created as the empty object literal: it is given by its own
  properties, and it inherits the members of \<^verbatim>\<open>Object.prototype\<close>.
\<close>

record requestAdapter =
  ra_request :: request
  ra_modifiedModel :: "string option"
  ra_toolResultUpdates :: "(string \<times> string) list"

definition createRequestAdapter :: "request \<Rightarrow> requestAdapter" where
  "createRequestAdapter r =
     \<lparr>ra_request = r, ra_modifiedModel = None, ra_toolResultUpdates = []\<rparr>"

definition getModel :: "requestAdapter \<Rightarrow> string" where
  "getModel a =
     (case ra_modifiedModel a of Some m \<Rightarrow> m | None \<Rightarrow> req_model (ra_request a))"

definition isStreaming :: "requestAdapter \<Rightarrow> bool" where
  "isStreaming a = (req_stream (ra_request a) = Some True)"



text \<open>
  The names of the members of \<^verbatim>\<open>Object.prototype\<close>. Each member is a function, but for
  \<^verbatim>\<open>__proto__\<close>, an accessor that reads as the prototype object and, on assigning a
  string, does nothing.
\<close>

definition objectPrototypeKeys :: "string list" where
  "objectPrototypeKeys =
     [''constructor'', ''__defineGetter__'', ''__defineSetter__'', ''hasOwnProperty'',
      ''__lookupGetter__'', ''__lookupSetter__'', ''isPrototypeOf'', ''propertyIsEnumerable'',
      ''toString'', ''valueOf'', ''__proto__'', ''toLocaleString'']"



text \<open>
  \<^verbatim>\<open>findToolNameInMessages\<close>. The inner loop returns at the first tool call whose id is
  the target; the outer loop runs \<open>i\<close> from \<open>length - 1\<close> down to \<open>0\<close>, here by recursion
  on the number \<open>n\<close> of messages not yet visited (the message visited is \<open>messages[n - 1]\<close>).
\<close>

fun findInToolCalls :: "toolCall list \<Rightarrow> string \<Rightarrow> string option" where
  "findInToolCalls [] target = None"
| "findInToolCalls (FunctionToolCall i n a # tcs) target =
     (if i = target then Some n else findInToolCalls tcs target)"
| "findInToolCalls (CustomToolCall i n a # tcs) target =
     (if i = target then Some n else findInToolCalls tcs target)"

fun matchInMessage :: "message \<Rightarrow> string \<Rightarrow> string option" where
  "matchInMessage (AssistantMessage a) target =
     (case asst_tool_calls a of
        Some tcs \<Rightarrow> findInToolCalls tcs target
      | None \<Rightarrow> None)"
| "matchInMessage m target = None"

primrec scanBackward :: "message list \<Rightarrow> string \<Rightarrow> nat \<Rightarrow> string option" where
  "scanBackward msgs target 0 = None"
| "scanBackward msgs target (Suc i) =
     (case matchInMessage (msgs ! i) target of
        Some n \<Rightarrow> Some n
      | None \<Rightarrow> scanBackward msgs target i)"

definition findToolNameInMessages :: "message list \<Rightarrow> string \<Rightarrow> string option" where
  "findToolNameInMessages msgs target = scanBackward msgs target (length msgs)"

text \<open>
  \<^verbatim>\<open>JSON.parse\<close> is a parameter of the model: \<open>None\<close> is the \<^verbatim>\<open>SyntaxError\<close> that the
  \<^verbatim>\<open>try\<close>/\<^verbatim>\<open>catch\<close> around every call turns into the fallback.
\<close>

type_synonym jsonParser = "string \<Rightarrow> jsvalue option"

fun parseToolContent :: "jsonParser \<Rightarrow> textContent \<Rightarrow> toolResultContent" where
  "parseToolContent parse (TextContent s) =
     (case parse s of Some v \<Rightarrow> ParsedContent v | None \<Rightarrow> RawContent (TextContent s))"
| "parseToolContent parse (TextParts ps) = RawContent (TextParts ps)"
| "parseToolContent parse (InheritedMember k) = RawContent (InheritedMember k)"

fun toolResultsLoop :: "jsonParser \<Rightarrow> message list \<Rightarrow> message list \<Rightarrow> commonToolResult list" where
  "toolResultsLoop parse allMsgs [] = []"
| "toolResultsLoop parse allMsgs (ToolMessage c tid # ms) =
     \<lparr>tr_id = tid,
      tr_name = (case findToolNameInMessages allMsgs tid of Some n \<Rightarrow> n | None \<Rightarrow> ''unknown''),
      tr_content = parseToolContent parse c,
      tr_isError = False\<rparr> # toolResultsLoop parse allMsgs ms"
| "toolResultsLoop parse allMsgs (m # ms) = toolResultsLoop parse allMsgs ms"

definition getToolResults :: "jsonParser \<Rightarrow> requestAdapter \<Rightarrow> commonToolResult list" where
  "getToolResults parse a =
     toolResultsLoop parse (req_messages (ra_request a)) (req_messages (ra_request a))"

text \<open>
  \<^verbatim>\<open>toCommonFormat\<close>: one canonical message per native message; a tool message gets a
  \<^verbatim>\<open>toolCalls\<close> entry only when the resolved name is truthy (found and not empty).
\<close>

fun toCommonMessage :: "jsonParser \<Rightarrow> message list \<Rightarrow> message \<Rightarrow> commonMessage" where
  "toCommonMessage parse allMsgs (ToolMessage c tid) =
     (case findToolNameInMessages allMsgs tid of
        Some n \<Rightarrow>
          (if n \<noteq> [] then
             \<lparr>cm_role = RoleTool,
              cm_toolCalls = Some [\<lparr>tr_id = tid, tr_name = n,
                                    tr_content = parseToolContent parse c,
                                    tr_isError = False\<rparr>]\<rparr>
           else \<lparr>cm_role = RoleTool, cm_toolCalls = None\<rparr>)
      | None \<Rightarrow> \<lparr>cm_role = RoleTool, cm_toolCalls = None\<rparr>)"
| "toCommonMessage parse allMsgs m = \<lparr>cm_role = roleOf m, cm_toolCalls = None\<rparr>"

definition toCommonFormat :: "jsonParser \<Rightarrow> message list \<Rightarrow> commonMessage list" where
  "toCommonFormat parse msgs = map (toCommonMessage parse msgs) msgs"

definition getMessages :: "jsonParser \<Rightarrow> requestAdapter \<Rightarrow> commonMessage list" where
  "getMessages parse a = toCommonFormat parse (req_messages (ra_request a))"

text \<open>
  \<^verbatim>\<open>applyUpdates\<close>: a tool message is rewritten when \<^verbatim>\<open>updates[tool_call_id]\<close> is truthy.
  The lookup reads the own property when there is one, which is truthy when it is not the
  empty string; otherwise it reads the member of \<^verbatim>\<open>Object.prototype\<close> of that name when
  there is one, which is truthy and becomes the content; otherwise it is undefined.
\<close>

fun applyUpdate :: "(string \<times> string) list \<Rightarrow> message \<Rightarrow> message" where
  "applyUpdate updates (ToolMessage c tid) =
     (case map_of updates tid of
        Some v \<Rightarrow> (if v \<noteq> [] then ToolMessage (TextContent v) tid else ToolMessage c tid)
      | None \<Rightarrow>
          (if tid \<in> set objectPrototypeKeys then ToolMessage (InheritedMember tid) tid
           else ToolMessage c tid))"
| "applyUpdate updates m = m"

definition applyUpdates :: "message list \<Rightarrow> (string \<times> string) list \<Rightarrow> message list" where
  "applyUpdates msgs updates =
     (if length updates = 0 then msgs else map (applyUpdate updates) msgs)"

definition toProviderRequest :: "requestAdapter \<Rightarrow> request" where
  "toProviderRequest a =
     (let msgs = (if length (ra_toolResultUpdates a) > 0
                  then applyUpdates (req_messages (ra_request a)) (ra_toolResultUpdates a)
                  else req_messages (ra_request a))
      in (ra_request a)\<lparr>req_model := getModel a, req_messages := msgs\<rparr>)"

subsection \<open>The second copy of the adapter\<close>

text \<open>
  The repository holds a second copy of the adapter file (\<^verbatim>\<open>src/unnamed/part_004\<close>). Its
  request adapter differs in \<^verbatim>\<open>toProviderRequest\<close> only, which sets
  \<^verbatim>\<open>reasoning_split\<close> from the model name. Definitions of the second copy carry the
  suffix \<open>_alt\<close>.
\<close>

fun startsWith :: "string \<Rightarrow> string \<Rightarrow> bool" where
  "startsWith s [] = True"
| "startsWith [] (p # ps) = False"
| "startsWith (c # cs) (p # ps) = (c = p \<and> startsWith cs ps)"

text \<open>\<^verbatim>\<open>String.prototype.includes\<close>.\<close>

fun includes_str :: "string \<Rightarrow> string \<Rightarrow> bool" where
  "includes_str [] sub = (sub = [])"
| "includes_str (c # cs) sub = (startsWith (c # cs) sub \<or> includes_str cs sub)"

definition toProviderRequest_alt :: "requestAdapter \<Rightarrow> request" where
  "toProviderRequest_alt a =
     (let msgs = (if length (ra_toolResultUpdates a) > 0
                  then applyUpdates (req_messages (ra_request a)) (ra_toolResultUpdates a)
                  else req_messages (ra_request a))
      in (ra_request a)\<lparr>req_model := getModel a, req_messages := msgs,
                        req_reasoning_split :=
                          (if includes_str (getModel a) ''MiniMax-M2'' then Some True
                           else req_reasoning_split (ra_request a))\<rparr>)"

section \<open>Response adapter (\<^verbatim>\<open>MiniMaxResponseAdapter\<close>)\<close>

text \<open>
  The response type of the API schema, with the fields the adapters read or build.
  Token counts are integers, and their sums are taken to stay below \<open>2\<^sup>5\<^sup>3\<close>, where the
  source's floating-point addition is exact.
\<close>

record usage =
  usage_prompt_tokens :: "int option"
  usage_completion_tokens :: "int option"
  usage_total_tokens :: "int option"

record responseMessage =
  msg_role :: role
  msg_content :: "string option"
  msg_refusal :: "string option"
  msg_tool_calls :: "toolCall list option"
  msg_reasoning_details :: "string list option"

record responseChoice =
  choice_index :: int
  choice_message :: responseMessage
  choice_logprobs :: jsvalue
  choice_finish_reason :: string

record response =
  resp_id :: string
  resp_object :: string
  resp_created :: int
  resp_model :: string
  resp_choices :: "responseChoice list"
  resp_usage :: "usage option"

text \<open>
  The callback of \<^verbatim>\<open>getToolCalls\<close>. A tool call is a function call or a custom call
  (the schema's union), so the callback's last branch, for any other type, is not
  reachable and has no equation.
\<close>

fun toCommonToolCall :: "jsonParser \<Rightarrow> toolCall \<Rightarrow> commonToolCall" where
  "toCommonToolCall parse (FunctionToolCall i n args) =
     \<lparr>call_id = i, call_name = n,
      call_arguments = (case parse args of Some v \<Rightarrow> v | None \<Rightarrow> JSObject [])\<rparr>"
| "toCommonToolCall parse (CustomToolCall i n inp) =
     \<lparr>call_id = i, call_name = n,
      call_arguments = (case parse inp of Some v \<Rightarrow> v | None \<Rightarrow> JSObject [])\<rparr>"

definition getToolCalls :: "jsonParser \<Rightarrow> response \<Rightarrow> commonToolCall list" where
  "getToolCalls parse r =
     (case resp_choices r of
        [] \<Rightarrow> []
      | choice # rest \<Rightarrow>
          (case msg_tool_calls (choice_message choice) of
             None \<Rightarrow> []
           | Some tcs \<Rightarrow> map (toCommonToolCall parse) tcs))"

section \<open>Stream adapter (\<^verbatim>\<open>MiniMaxStreamAdapter\<close>)\<close>

record fnDelta =
  fnd_name :: "string option"
  fnd_arguments :: "string option"

record toolCallDelta =
  tcd_index :: int
  tcd_id :: "string option"
  tcd_function :: "fnDelta option"

record reasoningDetail =
  rd_text :: "string option"

record delta =
  delta_content :: "string option"
  delta_reasoning_details :: "reasoningDetail list option"
  delta_tool_calls :: "toolCallDelta list option"

record chunkChoice =
  cc_delta :: delta
  cc_finish_reason :: "string option"

record chunk =
  chunk_id :: string
  chunk_model :: string
  chunk_created :: int
  chunk_choices :: "chunkChoice list"
  chunk_usage :: "usage option"

record accToolCall =
  acc_id :: string
  acc_name :: string
  acc_arguments :: string

record usageView =
  inputTokens :: int
  outputTokens :: int

record timing =
  startTime :: int
  firstChunkTime :: "int option"

record streamState =
  st_responseId :: string
  st_model :: string
  st_text :: string
  st_toolCalls :: "accToolCall list"
  st_rawToolCallEvents :: "chunk list"
  st_usage :: "usageView option"
  st_stopReason :: "string option"
  st_timing :: timing
  st_reasoning :: "string option"

record streamAdapter =
  sa_state :: streamState
  sa_currentToolCallIndices :: "int \<rightharpoonup> nat"

record chunkProcessingResult =
  sseData :: "string option"
  isToolCallChunk :: bool
  isFinal :: bool

datatype error = TypeError

text \<open>The constructor; \<open>now\<close> is the value of \<^verbatim>\<open>Date.now()\<close>.\<close>

definition createStreamAdapter :: "int \<Rightarrow> streamAdapter" where
  "createStreamAdapter now =
     \<lparr>sa_state =
        \<lparr>st_responseId = [], st_model = [], st_text = [], st_toolCalls = [],
         st_rawToolCallEvents = [], st_usage = None, st_stopReason = None,
         st_timing = \<lparr>startTime = now, firstChunkTime = None\<rparr>,
         st_reasoning = None\<rparr>,
      sa_currentToolCallIndices = Map.empty\<rparr>"

text \<open>\<^verbatim>\<open>a ?? ""\<close> on an optional string.\<close>

fun orEmpty :: "string option \<Rightarrow> string" where
  "orEmpty None = []"
| "orEmpty (Some s) = s"

text \<open>\<^verbatim>\<open>toolCallDelta.function?.name\<close> and \<^verbatim>\<open>toolCallDelta.function?.arguments\<close>.\<close>

definition deltaFunctionName :: "toolCallDelta \<Rightarrow> string option" where
  "deltaFunctionName d = (case tcd_function d of None \<Rightarrow> None | Some f \<Rightarrow> fnd_name f)"

definition deltaFunctionArguments :: "toolCallDelta \<Rightarrow> string option" where
  "deltaFunctionArguments d =
     (case tcd_function d of None \<Rightarrow> None | Some f \<Rightarrow> fnd_arguments f)"

text \<open>The three conditional assignments to the accumulated tool call.\<close>

definition mergeToolCallDelta :: "toolCallDelta \<Rightarrow> accToolCall \<Rightarrow> accToolCall" where
  "mergeToolCallDelta d tc =
     \<lparr>acc_id = (if truthyString (tcd_id d) then orEmpty (tcd_id d) else acc_id tc),
      acc_name = (if truthyString (deltaFunctionName d)
                  then orEmpty (deltaFunctionName d) else acc_name tc),
      acc_arguments = (if truthyString (deltaFunctionArguments d)
                       then acc_arguments tc @ orEmpty (deltaFunctionArguments d)
                       else acc_arguments tc)\<rparr>"

text \<open>
  One iteration of the loop over \<^verbatim>\<open>delta.tool_calls\<close>. Reading
  \<^verbatim>\<open>this.state.toolCalls[toolCallIndex]\<close> out of range gives \<^verbatim>\<open>undefined\<close>, and the
  assignments to its fields then throw a \<^verbatim>\<open>TypeError\<close>.
\<close>

definition applyToolCallDelta :: "toolCallDelta \<Rightarrow> streamAdapter \<Rightarrow> error + streamAdapter" where
  "applyToolCallDelta d a =
     (let ix = tcd_index d;
          a1 = (if sa_currentToolCallIndices a ix = None
                then a\<lparr>sa_currentToolCallIndices :=
                         (sa_currentToolCallIndices a)(ix \<mapsto> length (st_toolCalls (sa_state a))),
                       sa_state := (sa_state a)\<lparr>st_toolCalls :=
                         st_toolCalls (sa_state a) @
                           [\<lparr>acc_id = orEmpty (tcd_id d),
                             acc_name = orEmpty (deltaFunctionName d),
                             acc_arguments = []\<rparr>]\<rparr>\<rparr>
                else a)
      in case sa_currentToolCallIndices a1 ix of
           None \<Rightarrow> Inr a1
         | Some i \<Rightarrow>
             (if i < length (st_toolCalls (sa_state a1))
              then Inr (a1\<lparr>sa_state := (sa_state a1)\<lparr>st_toolCalls :=
                          (st_toolCalls (sa_state a1))
                            [i := mergeToolCallDelta d (st_toolCalls (sa_state a1) ! i)]\<rparr>\<rparr>)
              else Inl TypeError))"

fun toolCallsLoop :: "toolCallDelta list \<Rightarrow> streamAdapter \<Rightarrow> error + streamAdapter" where
  "toolCallsLoop [] a = Inr a"
| "toolCallsLoop (d # ds) a =
     (case applyToolCallDelta d a of
        Inl e \<Rightarrow> Inl e
      | Inr a' \<Rightarrow> toolCallsLoop ds a')"

text \<open>
  The SSE frame \<^verbatim>\<open>`data: ${JSON.stringify(chunk)}\n\n`\<close>; \<^verbatim>\<open>JSON.stringify\<close> on chunks
  is a parameter.
\<close>

definition sseFrame :: "(chunk \<Rightarrow> string) \<Rightarrow> chunk \<Rightarrow> string" where
  "sseFrame stringify c = ''data: '' @ stringify c @ [CHR 0x0A, CHR 0x0A]"

text \<open>
  \<^verbatim>\<open>processChunk\<close>, first half: the first-chunk time, the id and model, and the usage.
\<close>

definition recordChunkHeader :: "int \<Rightarrow> chunk \<Rightarrow> streamState \<Rightarrow> streamState" where
  "recordChunkHeader now c s =
     (let s1 = (if firstChunkTime (st_timing s) = None
                then s\<lparr>st_timing := (st_timing s)\<lparr>firstChunkTime := Some now\<rparr>\<rparr>
                else s);
          s2 = s1\<lparr>st_responseId := chunk_id c, st_model := chunk_model c\<rparr>
      in case chunk_usage c of
           Some u \<Rightarrow>
             s2\<lparr>st_usage := Some
                  \<lparr>inputTokens = (case usage_prompt_tokens u of Some n \<Rightarrow> n | None \<Rightarrow> 0),
                   outputTokens = (case usage_completion_tokens u of Some n \<Rightarrow> n | None \<Rightarrow> 0)\<rparr>\<rparr>
         | None \<Rightarrow> s2)"

text \<open>The end of \<^verbatim>\<open>processChunk\<close>: the finish reason and the final flag.\<close>

definition finishChunk ::
  "chunkChoice \<Rightarrow> string option \<Rightarrow> bool \<Rightarrow> streamAdapter \<Rightarrow> chunkProcessingResult \<times> streamAdapter" where
  "finishChunk choice sse isTool a =
     (let s = (if truthyString (cc_finish_reason choice)
               then (sa_state a)\<lparr>st_stopReason := cc_finish_reason choice\<rparr>
               else sa_state a)
      in (\<lparr>sseData = sse, isToolCallChunk = isTool, isFinal = (st_usage s \<noteq> None)\<rparr>,
          a\<lparr>sa_state := s\<rparr>))"

text \<open>The tool-call part of \<^verbatim>\<open>processChunk\<close>, then its end.\<close>

definition processToolCalls ::
  "chunk \<Rightarrow> chunkChoice \<Rightarrow> string option \<Rightarrow> streamAdapter
     \<Rightarrow> error + (chunkProcessingResult \<times> streamAdapter)" where
  "processToolCalls c choice sse a =
     (case delta_tool_calls (cc_delta choice) of
        None \<Rightarrow> Inr (finishChunk choice sse False a)
      | Some tcs \<Rightarrow>
          (case toolCallsLoop tcs a of
             Inl e \<Rightarrow> Inl e
           | Inr a' \<Rightarrow>
               Inr (finishChunk choice sse True
                      (a'\<lparr>sa_state := (sa_state a')\<lparr>st_rawToolCallEvents :=
                             st_rawToolCallEvents (sa_state a') @ [c]\<rparr>\<rparr>))))"

definition processChunk ::
  "(chunk \<Rightarrow> string) \<Rightarrow> int \<Rightarrow> streamAdapter \<Rightarrow> chunk
     \<Rightarrow> error + (chunkProcessingResult \<times> streamAdapter)" where
  "processChunk stringify now a c =
     (let s = recordChunkHeader now c (sa_state a)
      in case chunk_choices c of
           [] \<Rightarrow>
             Inr (\<lparr>sseData = None, isToolCallChunk = False, isFinal = (st_usage s \<noteq> None)\<rparr>,
                  a\<lparr>sa_state := s\<rparr>)
         | choice # rest \<Rightarrow>
             (let d = cc_delta choice;
                  s' = (if truthyString (delta_content d)
                        then s\<lparr>st_text := st_text s @ orEmpty (delta_content d)\<rparr>
                        else s);
                  sse1 = (if truthyString (delta_content d)
                          then Some (sseFrame stringify c) else None);
                  sse2 = (if delta_reasoning_details d \<noteq> None
                          then Some (sseFrame stringify c) else sse1)
              in processToolCalls c choice sse2 (a\<lparr>sa_state := s'\<rparr>)))"

text \<open>
  \<^verbatim>\<open>toProviderResponse\<close>; \<open>now\<close> is the value of \<^verbatim>\<open>Date.now()\<close> at the call, in
  milliseconds.
\<close>

definition toProviderToolCall :: "accToolCall \<Rightarrow> toolCall" where
  "toProviderToolCall tc = FunctionToolCall (acc_id tc) (acc_name tc) (acc_arguments tc)"

definition synthesizedUsage :: "streamState \<Rightarrow> usage" where
  "synthesizedUsage s =
     (let inp = (case st_usage s of Some u \<Rightarrow> inputTokens u | None \<Rightarrow> 0);
          outp = (case st_usage s of Some u \<Rightarrow> outputTokens u | None \<Rightarrow> 0)
      in \<lparr>usage_prompt_tokens = Some inp,
          usage_completion_tokens = Some outp,
          usage_total_tokens = Some (inp + outp)\<rparr>)"

definition toProviderResponse :: "int \<Rightarrow> streamAdapter \<Rightarrow> response" where
  "toProviderResponse now a =
     (let s = sa_state a;
          toolCalls = (if length (st_toolCalls s) > 0
                       then Some (map toProviderToolCall (st_toolCalls s)) else None)
      in \<lparr>resp_id = st_responseId s,
          resp_object = ''chat.completion'',
          resp_created = now div 1000,
          resp_model = st_model s,
          resp_choices =
            [\<lparr>choice_index = 0,
              choice_message =
                \<lparr>msg_role = RoleAssistant,
                 msg_content = (if st_text s \<noteq> [] then Some (st_text s) else None),
                 msg_refusal = None,
                 msg_tool_calls = toolCalls,
                 msg_reasoning_details = None\<rparr>,
              choice_logprobs = JSNull,
              choice_finish_reason =
                (case st_stopReason s of Some r \<Rightarrow> r | None \<Rightarrow> ''stop'')\<rparr>],
          resp_usage = Some (synthesizedUsage s)\<rparr>)"

text \<open>
  Feeding a stream: \<^verbatim>\<open>processChunk\<close> on each chunk in order, each with the clock value
  read while it is processed. The first exception ends the run.
\<close>

fun processChunks ::
  "(chunk \<Rightarrow> string) \<Rightarrow> streamAdapter \<Rightarrow> (int \<times> chunk) list
     \<Rightarrow> error + (chunkProcessingResult list \<times> streamAdapter)" where
  "processChunks stringify a [] = Inr ([], a)"
| "processChunks stringify a ((now, c) # cs) =
     (case processChunk stringify now a c of
        Inl e \<Rightarrow> Inl e
      | Inr (r, a') \<Rightarrow>
          (case processChunks stringify a' cs of
             Inl e \<Rightarrow> Inl e
           | Inr (rs, a'') \<Rightarrow> Inr (r # rs, a'')))"

subsection \<open>The second copy of the stream adapter\<close>

text \<open>
  The second copy accumulates the reasoning text, and forwards a reasoning chunk only
  when one of its details has text.
\<close>

fun reasoningLoop ::
  "string \<Rightarrow> reasoningDetail list \<Rightarrow> string option \<times> string option
     \<Rightarrow> string option \<times> string option" where
  "reasoningLoop frame [] (reasoning, sse) = (reasoning, sse)"
| "reasoningLoop frame (detailed # ds) (reasoning, sse) =
     (if truthyString (rd_text detailed)
      then reasoningLoop frame ds
             (Some ((if truthyString reasoning then orEmpty reasoning else [])
                    @ orEmpty (rd_text detailed)),
              (if truthyString sse then sse else Some frame))
      else reasoningLoop frame ds (reasoning, sse))"

definition processChunk_alt ::
  "(chunk \<Rightarrow> string) \<Rightarrow> int \<Rightarrow> streamAdapter \<Rightarrow> chunk
     \<Rightarrow> error + (chunkProcessingResult \<times> streamAdapter)" where
  "processChunk_alt stringify now a c =
     (let s = recordChunkHeader now c (sa_state a)
      in case chunk_choices c of
           [] \<Rightarrow>
             Inr (\<lparr>sseData = None, isToolCallChunk = False, isFinal = (st_usage s \<noteq> None)\<rparr>,
                  a\<lparr>sa_state := s\<rparr>)
         | choice # rest \<Rightarrow>
             (let d = cc_delta choice;
                  s' = (if truthyString (delta_content d)
                        then s\<lparr>st_text := st_text s @ orEmpty (delta_content d)\<rparr>
                        else s);
                  sse1 = (if truthyString (delta_content d)
                          then Some (sseFrame stringify c) else None);
                  rs = (case delta_reasoning_details d of
                          Some ds \<Rightarrow>
                            reasoningLoop (sseFrame stringify c) ds (st_reasoning s', sse1)
                        | None \<Rightarrow> (st_reasoning s', sse1))
              in processToolCalls c choice (snd rs)
                   (a\<lparr>sa_state := s'\<lparr>st_reasoning := fst rs\<rparr>\<rparr>)))"

definition toProviderResponse_alt :: "int \<Rightarrow> streamAdapter \<Rightarrow> response" where
  "toProviderResponse_alt now a =
     (let s = sa_state a;
          toolCalls = (if length (st_toolCalls s) > 0
                       then Some (map toProviderToolCall (st_toolCalls s)) else None)
      in \<lparr>resp_id = st_responseId s,
          resp_object = ''chat.completion'',
          resp_created = now div 1000,
          resp_model = st_model s,
          resp_choices =
            [\<lparr>choice_index = 0,
              choice_message =
                \<lparr>msg_role = RoleAssistant,
                 msg_content = Some (st_text s),
                 msg_refusal = None,
                 msg_tool_calls = toolCalls,
                 msg_reasoning_details =
                   (if truthyString (st_reasoning s)
                    then Some [orEmpty (st_reasoning s)] else None)\<rparr>,
              choice_logprobs = JSNull,
              choice_finish_reason =
                (case st_stopReason s of Some r \<Rightarrow> r | None \<Rightarrow> ''stop'')\<rparr>],
          resp_usage = Some (synthesizedUsage s)\<rparr>)"

fun processChunks_alt ::
  "(chunk \<Rightarrow> string) \<Rightarrow> streamAdapter \<Rightarrow> (int \<times> chunk) list
     \<Rightarrow> error + (chunkProcessingResult list \<times> streamAdapter)" where
  "processChunks_alt stringify a [] = Inr ([], a)"
| "processChunks_alt stringify a ((now, c) # cs) =
     (case processChunk_alt stringify now a c of
        Inl e \<Rightarrow> Inl e
      | Inr (r, a') \<Rightarrow>
          (case processChunks_alt stringify a' cs of
             Inl e \<Rightarrow> Inl e
           | Inr (rs, a'') \<Rightarrow> Inr (r # rs, a'')))"

section \<open>TOON compression (\<^verbatim>\<open>convertToolResultsToToon\<close>)\<close>

text \<open>
  The collaborators of the compression are parameters: \<^verbatim>\<open>unwrapToolContent\<close>,
  \<^verbatim>\<open>JSON.parse\<close>, the TOON encoder, the tokenizer's \<^verbatim>\<open>countTokens\<close> on one user message
  with the given content, and the price lookup (the \<^verbatim>\<open>pricePerMillionInput\<close> of the row
  found, as a number). All but the last are called inside one \<^verbatim>\<open>try\<close> block, where
  \<open>None\<close> stands for a call that throws. The two calls outside the \<^verbatim>\<open>try\<close> block,
  \<^verbatim>\<open>getTokenizer\<close> and the price lookup, are taken to return. Prices and savings are
  exact rationals here, where the source computes in floating point.
\<close>

record toonEnv =
  unwrapToolContent :: "string \<Rightarrow> string option"
  JSON_parse :: jsonParser
  toonEncode :: "jsvalue \<Rightarrow> string option"
  countTokens :: "string \<Rightarrow> int option"
  findByModel :: "string \<Rightarrow> rat option"

text \<open>
  The body of the \<^verbatim>\<open>try\<close> block: the compressed content with the token counts before
  and after, or \<open>None\<close> when a call throws (the \<^verbatim>\<open>catch\<close> branch).
\<close>

definition tryCompress :: "toonEnv \<Rightarrow> string \<Rightarrow> (string \<times> int \<times> int) option" where
  "tryCompress env content =
     (case unwrapToolContent env content of
        None \<Rightarrow> None
      | Some unwrapped \<Rightarrow>
          (case JSON_parse env unwrapped of
             None \<Rightarrow> None
           | Some parsed \<Rightarrow>
               (case toonEncode env parsed of
                  None \<Rightarrow> None
                | Some compressed \<Rightarrow>
                    (case countTokens env unwrapped of
                       None \<Rightarrow> None
                     | Some tokensBefore \<Rightarrow>
                         (case countTokens env compressed of
                            None \<Rightarrow> None
                          | Some tokensAfter \<Rightarrow>
                              Some (compressed, tokensBefore, tokensAfter))))))"

record toonCounters =
  toolResultCount :: nat
  totalTokensBefore :: int
  totalTokensAfter :: int

text \<open>
  The \<^verbatim>\<open>messages.map\<close> callback with the three counters it updates, message by message
  in order.
\<close>

fun toonLoop :: "toonEnv \<Rightarrow> message list \<Rightarrow> toonCounters \<Rightarrow> message list \<times> toonCounters" where
  "toonLoop env [] k = ([], k)"
| "toonLoop env (ToolMessage (TextContent content) tid # ms) k =
     (case tryCompress env content of
        Some (compressed, tokensBefore, tokensAfter) \<Rightarrow>
          (let (rest, k') =
                 toonLoop env ms
                   \<lparr>toolResultCount = toolResultCount k + 1,
                    totalTokensBefore = totalTokensBefore k + tokensBefore,
                    totalTokensAfter = totalTokensAfter k + tokensAfter\<rparr>
           in (ToolMessage (TextContent compressed) tid # rest, k'))
      | None \<Rightarrow>
          (let (rest, k') = toonLoop env ms k
           in (ToolMessage (TextContent content) tid # rest, k')))"
| "toonLoop env (m # ms) k =
     (let (rest, k') = toonLoop env ms k in (m # rest, k'))"

record compressionStats =
  toonTokensBefore :: "int option"
  toonTokensAfter :: "int option"
  toonCostSavings :: "rat option"

definition convertToolResultsToToon ::
  "toonEnv \<Rightarrow> message list \<Rightarrow> string \<Rightarrow> message list \<times> compressionStats" where
  "convertToolResultsToToon env msgs model' =
     (let (result, k) =
            toonLoop env msgs
              \<lparr>toolResultCount = 0, totalTokensBefore = 0, totalTokensAfter = 0\<rparr>;
          tokensSaved = totalTokensBefore k - totalTokensAfter k;
          savings =
            (if toolResultCount k > 0 \<and> tokensSaved > 0
             then (case findByModel env model' of
                     Some price \<Rightarrow> Some (of_int tokensSaved * (price / 1000000))
                   | None \<Rightarrow> None)
             else None)
      in (result,
          \<lparr>toonTokensBefore =
             (if toolResultCount k > 0 then Some (totalTokensBefore k) else None),
           toonTokensAfter =
             (if toolResultCount k > 0 then Some (totalTokensAfter k) else None),
           toonCostSavings = savings\<rparr>))"

record toonCompressionResult =
  tokensBefore :: "int option"
  tokensAfter :: "int option"
  costSavings :: "rat option"

definition applyToonCompression ::
  "toonEnv \<Rightarrow> string \<Rightarrow> requestAdapter \<Rightarrow> toonCompressionResult \<times> requestAdapter" where
  "applyToonCompression env model' a =
     (let (compressedMessages, stats) =
            convertToolResultsToToon env (req_messages (ra_request a)) model'
      in (\<lparr>tokensBefore = toonTokensBefore stats,
           tokensAfter = toonTokensAfter stats,
           costSavings = toonCostSavings stats\<rparr>,
          a\<lparr>ra_request := (ra_request a)\<lparr>req_messages := compressedMessages\<rparr>\<rparr>))"

section \<open>Operations on a request adapter, in sequence\<close>





section \<open>Error messages (\<^verbatim>\<open>extractErrorMessage\<close>)\<close>

text \<open>
  Reading the property \<open>k\<close> of a value that may be null or undefined (\<^verbatim>\<open>v?.k\<close>), for the
  keys the function reads, \<^verbatim>\<open>error\<close> and \<^verbatim>\<open>message\<close> (and \<^verbatim>\<open>error.message\<close> in the
  second copy): no primitive, no array and no plain object inherits them. An \<^verbatim>\<open>Error\<close>
  has its \<^verbatim>\<open>message\<close> and \<^verbatim>\<open>name\<close>, own or inherited, and its further own properties
  carry other keys.
\<close>

fun getProp :: "jsvalue \<Rightarrow> string \<Rightarrow> jsvalue" where
  "getProp (JSObject ps) k = (case map_of ps k of Some v \<Rightarrow> v | None \<Rightarrow> JSUndefined)"
| "getProp (JSError n m ps) k =
     (if k = ''message'' then JSString m
      else if k = ''name'' then JSString n
      else (case map_of ps k of Some v \<Rightarrow> v | None \<Rightarrow> JSUndefined))"
| "getProp v k = JSUndefined"

text \<open>Decimal digits of a natural number.\<close>

fun showNat :: "nat \<Rightarrow> string" where
  "showNat n =
     (if n < 10 then [''0123456789'' ! n]
      else showNat (n div 10) @ [''0123456789'' ! (n mod 10)])"

declare showNat.simps [simp del]

text \<open>
  \<^verbatim>\<open>Number::toString\<close> in radix 10, for the digits \<open>ds\<close> of \<open>s\<close> and the exponent \<open>n\<close>:
  plain digits, a decimal point inside or in front of the digits, or exponent
  notation, as the language definition orders the cases.
\<close>

definition finiteToString :: "string \<Rightarrow> int \<Rightarrow> string" where
  "finiteToString ds n =
     (let k = int (length ds);
          exponent = (if n - 1 < 0 then ''-'' else ''+'') @ showNat (nat \<bar>n - 1\<bar>)
      in if k \<le> n \<and> n \<le> 21 then ds @ replicate (nat (n - k)) (CHR ''0'')
         else if 0 < n \<and> n \<le> 21 then take (nat n) ds @ ''.'' @ drop (nat n) ds
         else if - 6 < n \<and> n \<le> 0 then ''0.'' @ replicate (nat (- n)) (CHR ''0'') @ ds
         else if k = 1 then ds @ ''e'' @ exponent
         else take 1 ds @ ''.'' @ drop 1 ds @ ''e'' @ exponent)"

fun numberToString :: "jsnumber \<Rightarrow> string" where
  "numberToString NaN = ''NaN''"
| "numberToString PosInfinity = ''Infinity''"
| "numberToString NegInfinity = ''-Infinity''"
| "numberToString Zero = ''0''"
| "numberToString (Finite negative s n) =
     (if negative then ''-'' else []) @ finiteToString (showNat s) n"

fun joinWith :: "string \<Rightarrow> string list \<Rightarrow> string" where
  "joinWith sep [] = []"
| "joinWith sep [x] = x"
| "joinWith sep (x # y # ys) = x @ sep @ joinWith sep (y # ys)"

text \<open>
  \<^verbatim>\<open>String(v)\<close> converts an object through its \<^verbatim>\<open>toString\<close> member. An object or
  \<^verbatim>\<open>Error\<close> with an own property \<^verbatim>\<open>toString\<close> has data there and no function, and the
  inherited \<^verbatim>\<open>valueOf\<close> returns the object itself, so the conversion throws a
  \<^verbatim>\<open>TypeError\<close>. An array converts each element other than null and undefined.
\<close>

fun throwsOnString :: "jsvalue \<Rightarrow> bool" where
  "throwsOnString (JSObject ps) = (map_of ps ''toString'' \<noteq> None)"
| "throwsOnString (JSError n m ps) = (map_of ps ''toString'' \<noteq> None)"
| "throwsOnString (JSArray xs) = list_ex throwsOnString xs"
| "throwsOnString v = False"

text \<open>
  The string \<^verbatim>\<open>String(v)\<close> returns when it does not throw: an array joins its elements
  with commas, null and undefined elements as empty strings; a plain object is
  \<^verbatim>\<open>[object Object]\<close>; an \<^verbatim>\<open>Error\<close> is its name and message, as
  \<^verbatim>\<open>Error.prototype.toString\<close> puts them together.
\<close>

fun js_String :: "jsvalue \<Rightarrow> string" where
  "js_String JSUndefined = ''undefined''"
| "js_String JSNull = ''null''"
| "js_String (JSBoolean b) = (if b then ''true'' else ''false'')"
| "js_String (JSNumber x) = numberToString x"
| "js_String (JSString s) = s"
| "js_String (JSArray xs) =
     joinWith '',''
       (map (\<lambda>x. if x = JSNull \<or> x = JSUndefined then [] else js_String x) xs)"
| "js_String (JSObject ps) = ''[object Object]''"
| "js_String (JSError n m ps) =
     (if n = [] then m else if m = [] then n else n @ '': '' @ m)"

definition extractErrorMessage :: "jsvalue \<Rightarrow> error + jsvalue" where
  "extractErrorMessage err =
     (if truthy (getProp (getProp err ''error'') ''message'')
      then Inr (getProp (getProp err ''error'') ''message'')
      else if truthy (getProp err ''message'')
      then Inr (getProp err ''message'')
      else if throwsOnString err then Inl TypeError
      else Inr (JSString (js_String err)))"

subsection \<open>The second copy of \<^verbatim>\<open>extractErrorMessage\<close>\<close>

text \<open>
  lodash's \<^verbatim>\<open>get(error, "error.message")\<close>: when the value has the key
  \<^verbatim>\<open>error.message\<close> itself, that property is read; otherwise the path is followed.
  No prototype defines that key, so having it is having it among the own properties.
\<close>

fun hasOwnKey :: "jsvalue \<Rightarrow> string \<Rightarrow> bool" where
  "hasOwnKey (JSObject ps) k = (map_of ps k \<noteq> None)"
| "hasOwnKey (JSError n m ps) k = (map_of ps k \<noteq> None)"
| "hasOwnKey v k = False"

definition lodashGetErrorMessage :: "jsvalue \<Rightarrow> jsvalue" where
  "lodashGetErrorMessage err =
     (if hasOwnKey err ''error.message'' then getProp err ''error.message''
      else getProp (getProp err ''error'') ''message'')"

fun isString :: "jsvalue \<Rightarrow> bool" where
  "isString (JSString s) = True"
| "isString v = False"

fun isError :: "jsvalue \<Rightarrow> bool" where
  "isError (JSError n m ps) = True"
| "isError v = False"

definition extractErrorMessage_alt :: "jsvalue \<Rightarrow> error + jsvalue" where
  "extractErrorMessage_alt err =
     (if isString (lodashGetErrorMessage err) then Inr (lodashGetErrorMessage err)
      else if isError err then Inr (getProp err ''message'')
      else Inr (JSString ''Internal server error''))"

section \<open>Notions used to state the properties\<close>

text \<open>An assistant message that contains a tool call with the given id.\<close>

definition containsToolCall :: "message \<Rightarrow> string \<Rightarrow> bool" where
  "containsToolCall m target =
     (case m of
        AssistantMessage a \<Rightarrow>
          (case asst_tool_calls a of
             Some tcs \<Rightarrow> target \<in> toolCallId ` set tcs
           | None \<Rightarrow> False)
      | _ \<Rightarrow> False)"


text \<open>
  The invariant of the stream adapter: every position recorded in
  \<^verbatim>\<open>currentToolCallIndices\<close> is a position of \<^verbatim>\<open>state.toolCalls\<close>.
\<close>

definition indicesInRange :: "streamAdapter \<Rightarrow> bool" where
  "indicesInRange a =
     (\<forall>k i. sa_currentToolCallIndices a k = Some i \<longrightarrow> i < length (st_toolCalls (sa_state a)))"

text \<open>An adapter with its timing record replaced.\<close>

definition retime :: "timing \<Rightarrow> streamAdapter \<Rightarrow> streamAdapter" where
  "retime T a = a\<lparr>sa_state := (sa_state a)\<lparr>st_timing := T\<rparr>\<rparr>"

text \<open>
  A whole stream through a fresh adapter: the final flags \<^verbatim>\<open>processChunk\<close> returns, and
  the response \<^verbatim>\<open>toProviderResponse()\<close> synthesizes afterwards. The adapter is
  constructed at clock value \<open>t0\<close>, and \<^verbatim>\<open>toProviderResponse()\<close> is called at \<open>now\<close>.
\<close>

definition finalFlags ::
  "(chunk \<Rightarrow> string) \<Rightarrow> int \<Rightarrow> (int \<times> chunk) list \<Rightarrow> bool list option" where
  "finalFlags stringify t0 cs =
     (case processChunks stringify (createStreamAdapter t0) cs of
        Inl e \<Rightarrow> None
      | Inr (rs, a) \<Rightarrow> Some (map isFinal rs))"

definition finalFlags_alt ::
  "(chunk \<Rightarrow> string) \<Rightarrow> int \<Rightarrow> (int \<times> chunk) list \<Rightarrow> bool list option" where
  "finalFlags_alt stringify t0 cs =
     (case processChunks_alt stringify (createStreamAdapter t0) cs of
        Inl e \<Rightarrow> None
      | Inr (rs, a) \<Rightarrow> Some (map isFinal rs))"

definition streamToResponse ::
  "(chunk \<Rightarrow> string) \<Rightarrow> int \<Rightarrow> (int \<times> chunk) list \<Rightarrow> int \<Rightarrow> response option" where
  "streamToResponse stringify t0 cs now =
     (case processChunks stringify (createStreamAdapter t0) cs of
        Inl e \<Rightarrow> None
      | Inr (rs, a) \<Rightarrow> Some (toProviderResponse now a))"

section \<open>Example data\<close>

text \<open>
  The concrete inputs of the examples, taken from the adapter's test file. The
  collaborators are given by their values on the strings the examples use:
  \<^verbatim>\<open>JSON.parse\<close> on two JSON texts (every other string of the examples is a syntax
  error), the TOON encoding of the one parsed value, no content envelope, a tokenizer
  that counts one token per character, and an empty price table. The properties
  themselves are proved for every choice of collaborators.
\<close>

definition exampleParse :: jsonParser where
  \<open>exampleParse s =
     (if s = ''{"temperature": 72}'' then Some (JSObject [(''temperature'', JSNumber (Finite False 72 2))])
      else if s = ''{}'' then Some (JSObject [])
      else None)\<close>

definition exampleToolCall :: toolCall where
  \<open>exampleToolCall = FunctionToolCall ''call_123'' ''get_weather'' ''{"location": "NYC"}''\<close>

definition exampleMessages :: "message list" where
  \<open>exampleMessages =
     [UserMessage (UserText ''Get the weather'') None,
      AssistantMessage
        \<lparr>asst_audio = None, asst_content = None, asst_function_call = None,
         asst_name = None, asst_refusal = None,
         asst_tool_calls = Some [exampleToolCall]\<rparr>,
      ToolMessage (TextContent ''{"temperature": 72}'') ''call_123'',
      ToolMessage (TextContent ''sunny'') ''call_999'']\<close>

definition exampleRequest :: request where
  "exampleRequest =
     \<lparr>req_model = ''MiniMax-M2'', req_messages = exampleMessages, req_tools = None,
      req_tool_choice = JSUndefined, req_temperature = JSUndefined,
      req_max_tokens = JSUndefined, req_stream = None, req_reasoning_split = None\<rparr>"

definition exampleEnv :: toonEnv where
  "exampleEnv =
     \<lparr>unwrapToolContent = Some,
      JSON_parse = exampleParse,
      toonEncode = (\<lambda>v. if v = JSObject [(''temperature'', JSNumber (Finite False 72 2))]
                          then Some ''temperature: 72'' else None),
      countTokens = (\<lambda>s. Some (int (length s))),
      findByModel = (\<lambda>m. None)\<rparr>"

definition brokenResponse :: response where
  "brokenResponse =
     \<lparr>resp_id = ''chatcmpl-test'', resp_object = ''chat.completion'', resp_created = 0,
      resp_model = ''MiniMax-M2'',
      resp_choices =
        [\<lparr>choice_index = 0,
          choice_message =
            \<lparr>msg_role = RoleAssistant, msg_content = None, msg_refusal = None,
             msg_tool_calls =
               Some [FunctionToolCall ''call_789'' ''broken_tool'' ''invalid json{''],
             msg_reasoning_details = None\<rparr>,
          choice_logprobs = JSNull,
          choice_finish_reason = ''tool_calls''\<rparr>],
      resp_usage = Some \<lparr>usage_prompt_tokens = Some 100, usage_completion_tokens = Some 50,
                          usage_total_tokens = Some 150\<rparr>\<rparr>"

text \<open>
  The stream of the end-to-end scenario: three argument fragments under tool-call index
  0, a chunk with the finish reason, and the usage chunk with no choices. The chunk
  serializer does not matter to what the examples evaluate.
\<close>

definition fragmentDelta :: "string option \<Rightarrow> string option \<Rightarrow> string \<Rightarrow> toolCallDelta" where
  "fragmentDelta callId name fragment =
     \<lparr>tcd_index = 0, tcd_id = callId,
      tcd_function = Some \<lparr>fnd_name = name, fnd_arguments = Some fragment\<rparr>\<rparr>"

definition fragmentChoice :: "string option \<Rightarrow> string option \<Rightarrow> string \<Rightarrow> chunkChoice" where
  "fragmentChoice callId name fragment =
     \<lparr>cc_delta =
        \<lparr>delta_content = None, delta_reasoning_details = None,
         delta_tool_calls = Some [fragmentDelta callId name fragment]\<rparr>,
      cc_finish_reason = None\<rparr>"

definition fragmentChunk :: "string option \<Rightarrow> string option \<Rightarrow> string \<Rightarrow> chunk" where
  "fragmentChunk callId name fragment =
     \<lparr>chunk_id = ''chatcmpl-1'', chunk_model = ''MiniMax-M2'', chunk_created = 0,
      chunk_choices = [fragmentChoice callId name fragment],
      chunk_usage = None\<rparr>"

definition finishReasonChoice :: chunkChoice where
  "finishReasonChoice =
     \<lparr>cc_delta = \<lparr>delta_content = None, delta_reasoning_details = None,
                   delta_tool_calls = None\<rparr>,
      cc_finish_reason = Some ''tool_calls''\<rparr>"

definition finishReasonChunk :: chunk where
  "finishReasonChunk =
     \<lparr>chunk_id = ''chatcmpl-1'', chunk_model = ''MiniMax-M2'', chunk_created = 0,
      chunk_choices = [finishReasonChoice],
      chunk_usage = None\<rparr>"

definition exampleUsage :: usage where
  "exampleUsage =
     \<lparr>usage_prompt_tokens = Some 12, usage_completion_tokens = Some 7,
      usage_total_tokens = Some 19\<rparr>"

definition usageChunk :: chunk where
  "usageChunk =
     \<lparr>chunk_id = ''chatcmpl-1'', chunk_model = ''MiniMax-M2'', chunk_created = 0,
      chunk_choices = [], chunk_usage = Some exampleUsage\<rparr>"

definition exampleStream :: "(int \<times> chunk) list" where
  \<open>exampleStream =
     [(1, fragmentChunk (Some ''call_1'') (Some ''get_weather'') ''{"location":''),
      (2, fragmentChunk None None ''"NY"''),
      (3, fragmentChunk None None ''}''),
      (4, finishReasonChunk),
      (5, usageChunk)]\<close>



definition exampleStringify :: "chunk \<Rightarrow> string" where
  "exampleStringify c = ''{}''"

section \<open>Properties of the request adapter\<close>

subsection \<open>Tool-name resolution\<close>

lemma findInToolCalls_None:
  "findInToolCalls tcs t = None \<longleftrightarrow> t \<notin> toolCallId ` set tcs"
  by (induction tcs t rule: findInToolCalls.induct) auto

lemma findInToolCalls_find:
  "find (\<lambda>tc. toolCallId tc = t) tcs = Some tc \<Longrightarrow>
   findInToolCalls tcs t = Some (toolCallName tc)"
  by (induction tcs t rule: findInToolCalls.induct) (auto split: if_splits)

lemma matchInMessage_None:
  "matchInMessage m t = None \<longleftrightarrow> \<not> containsToolCall m t"
  by (cases m) (auto simp: containsToolCall_def findInToolCalls_None split: option.splits)

lemma scanBackward_None:
  "scanBackward msgs t n = None \<longleftrightarrow> (\<forall>i<n. matchInMessage (msgs ! i) t = None)"
  by (induction n) (auto simp: less_Suc_eq split: option.splits)

lemma scanBackward_Some:
  "k < n \<Longrightarrow> matchInMessage (msgs ! k) t = Some nm \<Longrightarrow>
   (\<forall>i. k < i \<and> i < n \<longrightarrow> matchInMessage (msgs ! i) t = None) \<Longrightarrow>
   scanBackward msgs t n = Some nm"
proof (induction n)
  case 0
  then show ?case by simp
next
  case (Suc n)
  show ?case
  proof (cases "k = n")
    case True
    with Suc.prems show ?thesis by simp
  next
    case False
    with Suc.prems have "k < n" by simp
    moreover have "matchInMessage (msgs ! n) t = None"
      using Suc.prems \<open>k < n\<close> by simp
    ultimately show ?thesis using Suc by simp
  qed
qed

lemma findToolName_None:
  "findToolNameInMessages msgs t = None \<longleftrightarrow> (\<forall>m \<in> set msgs. \<not> containsToolCall m t)"
  unfolding findToolNameInMessages_def scanBackward_None matchInMessage_None
  by (metis in_set_conv_nth)

lemma findToolName_nearest:
  assumes "k < length msgs" "msgs ! k = AssistantMessage a" "asst_tool_calls a = Some tcs"
    "find (\<lambda>tc. toolCallId tc = t) tcs = Some tc"
    "\<forall>i. k < i \<and> i < length msgs \<longrightarrow> \<not> containsToolCall (msgs ! i) t"
  shows "findToolNameInMessages msgs t = Some (toolCallName tc)"
proof -
  have "matchInMessage (msgs ! k) t = Some (toolCallName tc)"
    using assms(2,3,4) by (simp add: findInToolCalls_find)
  then show ?thesis
    unfolding findToolNameInMessages_def
    using assms(1,5) by (intro scanBackward_Some[of k]) (auto simp: matchInMessage_None)
qed

lemma toolResultsLoop_names:
  "map (\<lambda>r. (tr_id r, tr_name r)) (toolResultsLoop parse all ms) =
   [(tid, case findToolNameInMessages all tid of Some n \<Rightarrow> n | None \<Rightarrow> ''unknown'').
      ToolMessage c tid \<leftarrow> ms]"
  by (induction parse all ms rule: toolResultsLoop.induct) auto

lemma exampleMessages_later:
  "1 < i \<and> i < length exampleMessages \<longrightarrow> \<not> containsToolCall (exampleMessages ! i) t"
proof -
  have "i = 2 \<or> i = 3" if "1 < i" "i < length exampleMessages"
    using that by (auto simp: exampleMessages_def)
  then show ?thesis
    by (auto simp: exampleMessages_def containsToolCall_def)
qed

text \<open>
  Claim C4. For every message list and target id: resolution yields null exactly when no
  assistant message contains a tool call with the target id; when the assistant message
  at position \<open>k\<close> contains one and no later message does, resolution yields the name of
  that message's first tool call with the target id, whatever the messages before \<open>k\<close>
  contain; and \<^verbatim>\<open>getToolResults\<close> has one result per tool message, in order, named by
  the resolved name, or \<^verbatim>\<open>unknown\<close> when resolution yields null.
\<close>

theorem tool_name_resolution:
  "(findToolNameInMessages msgs t = None \<longleftrightarrow> (\<forall>m \<in> set msgs. \<not> containsToolCall m t)) \<and>
   (k < length msgs \<longrightarrow> msgs ! k = AssistantMessage am \<longrightarrow> asst_tool_calls am = Some tcs \<longrightarrow>
    find (\<lambda>tc. toolCallId tc = t) tcs = Some tc \<longrightarrow>
    (\<forall>i. k < i \<and> i < length msgs \<longrightarrow> \<not> containsToolCall (msgs ! i) t) \<longrightarrow>
      findToolNameInMessages msgs t = Some (toolCallName tc)) \<and>
   map (\<lambda>r. (tr_id r, tr_name r)) (getToolResults parse a) =
     [(tid, case findToolNameInMessages (req_messages (ra_request a)) tid of
              Some n \<Rightarrow> n | None \<Rightarrow> ''unknown'').
        ToolMessage c tid \<leftarrow> req_messages (ra_request a)]"
  using findToolName_None findToolName_nearest toolResultsLoop_names
  unfolding getToolResults_def by blast

theorem tool_name_resolution_witness:
  "findToolNameInMessages exampleMessages ''call_123'' = Some ''get_weather'' \<and>
   findToolNameInMessages exampleMessages ''call_999'' = None \<and>
   map (\<lambda>r. (tr_id r, tr_name r)) (getToolResults exampleParse (createRequestAdapter exampleRequest))
     = [(''call_123'', ''get_weather''), (''call_999'', ''unknown'')]"
proof -
  note T = tool_name_resolution[of exampleMessages _ 1 _ "[exampleToolCall]" exampleToolCall
      exampleParse "createRequestAdapter exampleRequest"]
  have 1: "findToolNameInMessages exampleMessages ''call_123'' = Some ''get_weather''"
    using T[of "''call_123''"] exampleMessages_later[of _ "''call_123''"]
    by (simp add: exampleMessages_def exampleToolCall_def)
  have 2: "findToolNameInMessages exampleMessages ''call_999'' = None"
    using T[of "''call_999''"]
    by (simp add: exampleMessages_def exampleToolCall_def containsToolCall_def)
  have 3: "map (\<lambda>r. (tr_id r, tr_name r))
             (getToolResults exampleParse (createRequestAdapter exampleRequest))
     = [(''call_123'', ''get_weather''), (''call_999'', ''unknown'')]"
    by (simp add: getToolResults_def createRequestAdapter_def exampleRequest_def
          exampleMessages_def findToolNameInMessages_def exampleToolCall_def)
  from 1 2 3 show ?thesis by simp
qed

subsection \<open>Tool results are never errors\<close>

lemma toolResultsLoop_isError:
  "r \<in> set (toolResultsLoop parse all ms) \<Longrightarrow> \<not> tr_isError r"
  by (induction parse all ms rule: toolResultsLoop.induct) auto

lemma toCommonMessage_isError:
  "cm_toolCalls (toCommonMessage parse all m) = Some rs \<Longrightarrow> r \<in> set rs \<Longrightarrow> \<not> tr_isError r"
  by (cases m) (auto split: option.splits if_splits)

text \<open>
  Claim C10. Every tool result the request adapter produces, from \<^verbatim>\<open>getToolResults\<close>
  and in the \<^verbatim>\<open>toolCalls\<close> of the messages of \<^verbatim>\<open>getMessages\<close>, has \<^verbatim>\<open>isError\<close> false,
  for every message list and every content.
\<close>

theorem tool_results_not_errors:
  "(\<forall>r \<in> set (getToolResults parse a). tr_isError r = False) \<and>
   (\<forall>m \<in> set (getMessages parse a). \<forall>rs. cm_toolCalls m = Some rs \<longrightarrow>
      (\<forall>r \<in> set rs. tr_isError r = False))"
  using toolResultsLoop_isError toCommonMessage_isError
  by (fastforce simp: getToolResults_def getMessages_def toCommonFormat_def)

theorem tool_results_not_errors_witness:
  "map tr_isError (getToolResults exampleParse (createRequestAdapter exampleRequest))
     = [False, False] \<and>
   map (\<lambda>m. map_option (map tr_isError) (cm_toolCalls m))
     (getMessages exampleParse (createRequestAdapter exampleRequest))
     = [None, None, Some [False], None]"
  using tool_results_not_errors[of exampleParse "createRequestAdapter exampleRequest"]
  by (simp add: getToolResults_def getMessages_def toCommonFormat_def createRequestAdapter_def
        exampleRequest_def exampleMessages_def exampleToolCall_def findToolNameInMessages_def
        exampleParse_def)

subsection \<open>Round trip\<close>

lemma toProviderRequest_fresh: "toProviderRequest (createRequestAdapter R) = R"
  by (simp add: toProviderRequest_def createRequestAdapter_def getModel_def)

lemma toProviderRequest_alt_result:
  "toProviderRequest_alt (createRequestAdapter R) =
     R\<lparr>req_reasoning_split := (if includes_str (req_model R) ''MiniMax-M2'' then Some True
                               else req_reasoning_split R)\<rparr>"
  by (simp add: toProviderRequest_alt_def createRequestAdapter_def getModel_def)

lemma toProviderRequest_alt_fresh:
  "toProviderRequest_alt (createRequestAdapter R) = R \<longleftrightarrow>
   (includes_str (req_model R) ''MiniMax-M2'' \<longrightarrow> req_reasoning_split R = Some True)"
proof -
  have "toProviderRequest_alt (createRequestAdapter R) =
     R\<lparr>req_reasoning_split := (if includes_str (req_model R) ''MiniMax-M2'' then Some True
                               else req_reasoning_split R)\<rparr>"
    by (rule toProviderRequest_alt_result)
  moreover have "\<And>v. R\<lparr>req_reasoning_split := v\<rparr> = R \<longleftrightarrow> req_reasoning_split R = v"
    by (cases R) auto
  ultimately show ?thesis by simp
qed

text \<open>
  Claim C1, as amended. With no mutating operation invoked, \<^verbatim>\<open>toProviderRequest()\<close> of
  the adapter returns a request equal to \<open>R\<close>. The second copy of the adapter returns
  \<open>R\<close> with \<^verbatim>\<open>reasoning_split\<close> set to true when the model name contains
  \<^verbatim>\<open>MiniMax-M2\<close>, and \<open>R\<close> itself otherwise; every other field is that of \<open>R\<close>. So its
  result equals \<open>R\<close> exactly when the model name does not contain \<^verbatim>\<open>MiniMax-M2\<close> or
  \<^verbatim>\<open>reasoning_split\<close> is already true in \<open>R\<close>.
\<close>

theorem roundtrip_identity:
  "toProviderRequest (createRequestAdapter R) = R \<and>
   toProviderRequest_alt (createRequestAdapter R) =
     (if includes_str (req_model R) ''MiniMax-M2'' then R\<lparr>req_reasoning_split := Some True\<rparr>
      else R) \<and>
   (toProviderRequest_alt (createRequestAdapter R) = R \<longleftrightarrow>
      (includes_str (req_model R) ''MiniMax-M2'' \<longrightarrow> req_reasoning_split R = Some True))"
proof -
  have "toProviderRequest_alt (createRequestAdapter R) =
     (if includes_str (req_model R) ''MiniMax-M2'' then R\<lparr>req_reasoning_split := Some True\<rparr>
      else R)"
    by (simp add: toProviderRequest_alt_result)
  then show ?thesis
    using toProviderRequest_fresh[of R] toProviderRequest_alt_fresh[of R] by simp
qed

theorem roundtrip_identity_witness:
  "toProviderRequest (createRequestAdapter exampleRequest) = exampleRequest \<and>
   toProviderRequest_alt (createRequestAdapter exampleRequest)
     = exampleRequest\<lparr>req_reasoning_split := Some True\<rparr> \<and>
   toProviderRequest_alt (createRequestAdapter (exampleRequest\<lparr>req_reasoning_split := Some True\<rparr>))
     = exampleRequest\<lparr>req_reasoning_split := Some True\<rparr> \<and>
   toProviderRequest_alt (createRequestAdapter (exampleRequest\<lparr>req_model := ''gpt-4o''\<rparr>))
     = exampleRequest\<lparr>req_model := ''gpt-4o''\<rparr>"
proof -
  have m: "includes_str (req_model exampleRequest) ''MiniMax-M2''"
    by (simp add: exampleRequest_def)
  have g: "\<not> includes_str ''gpt-4o'' ''MiniMax-M2''"
    by simp
  show ?thesis
    using roundtrip_identity[of exampleRequest]
      roundtrip_identity[of "exampleRequest\<lparr>req_reasoning_split := Some True\<rparr>"]
      roundtrip_identity[of "exampleRequest\<lparr>req_model := ''gpt-4o''\<rparr>"] m g
    by simp
qed

text \<open>
  The round trip as the claim states it fails for the second copy: the request of the
  test file, with model \<^verbatim>\<open>MiniMax-M2\<close> and no \<^verbatim>\<open>reasoning_split\<close>, comes back with
  \<^verbatim>\<open>reasoning_split\<close> true.
\<close>

theorem roundtrip_identity_counterexample:
  "toProviderRequest_alt (createRequestAdapter exampleRequest) \<noteq> exampleRequest"
  using toProviderRequest_alt_fresh[of exampleRequest] by (simp add: exampleRequest_def)

section \<open>Properties of the response adapter\<close>

lemma getToolCalls_nth:
  assumes "resp_choices r = choice # rest" "msg_tool_calls (choice_message choice) = Some tcs"
  shows "getToolCalls parse r = map (toCommonToolCall parse) tcs"
  using assms by (simp add: getToolCalls_def)

text \<open>
  Claim C5. When a tool call of the response's first choice carries an arguments string
  (or, for a custom tool call, an input string) that is not valid JSON,
  \<^verbatim>\<open>getToolCalls()\<close> returns one call per tool call, and the call at that position has
  the empty object as arguments and the tool call's id and name.
\<close>

theorem malformed_arguments_default:
  assumes "resp_choices r = choice # rest"
    and "msg_tool_calls (choice_message choice) = Some tcs"
    and "i < length tcs"
    and "tcs ! i = FunctionToolCall cid nm args \<or> tcs ! i = CustomToolCall cid nm args"
    and "parse args = None"
  shows "length (getToolCalls parse r) = length tcs \<and>
         getToolCalls parse r ! i =
           \<lparr>call_id = cid, call_name = nm, call_arguments = JSObject []\<rparr>"
  using assms by (auto simp: getToolCalls_nth)

theorem malformed_arguments_default_witness:
  "getToolCalls exampleParse brokenResponse =
     [\<lparr>call_id = ''call_789'', call_name = ''broken_tool'', call_arguments = JSObject []\<rparr>]"
proof -
  have "length (getToolCalls exampleParse brokenResponse) = 1 \<and>
        getToolCalls exampleParse brokenResponse ! 0 =
          \<lparr>call_id = ''call_789'', call_name = ''broken_tool'', call_arguments = JSObject []\<rparr>"
    using malformed_arguments_default[where r = brokenResponse and rest = "[]"
        and tcs = "[FunctionToolCall ''call_789'' ''broken_tool'' ''invalid json{'']"
        and i = 0 and cid = "''call_789''" and nm = "''broken_tool''"
        and args = "''invalid json{''" and parse = exampleParse]
    by (simp add: brokenResponse_def exampleParse_def)
  then show ?thesis
    by (cases "getToolCalls exampleParse brokenResponse") auto
qed

section \<open>Properties of the stream adapter\<close>

subsection \<open>The invariant and the final flag\<close>

lemma indicesInRange_create: "indicesInRange (createStreamAdapter t)"
  by (simp add: indicesInRange_def createStreamAdapter_def)

lemma applyToolCallDelta_ok:
  assumes "indicesInRange a"
  shows "\<exists>a'. applyToolCallDelta d a = Inr a' \<and> indicesInRange a' \<and>
           st_usage (sa_state a') = st_usage (sa_state a)"
  using assms
  by (auto simp: applyToolCallDelta_def indicesInRange_def Let_def less_Suc_eq
        split: option.splits)

lemma toolCallsLoop_ok:
  "indicesInRange a \<Longrightarrow>
   \<exists>a'. toolCallsLoop ds a = Inr a' \<and> indicesInRange a' \<and>
         st_usage (sa_state a') = st_usage (sa_state a)"
proof (induction ds arbitrary: a)
  case Nil
  then show ?case by simp
next
  case (Cons d ds)
  from applyToolCallDelta_ok[OF Cons.prems, of d] obtain a1 where
    a1: "applyToolCallDelta d a = Inr a1" "indicesInRange a1"
        "st_usage (sa_state a1) = st_usage (sa_state a)" by blast
  from Cons.IH[OF a1(2)] obtain a2 where
    "toolCallsLoop ds a1 = Inr a2" "indicesInRange a2"
    "st_usage (sa_state a2) = st_usage (sa_state a1)" by blast
  with a1 show ?case by simp
qed

lemma indicesInRange_state:
  "st_toolCalls s = st_toolCalls (sa_state a) \<Longrightarrow>
   indicesInRange (a\<lparr>sa_state := s\<rparr>) = indicesInRange a"
  by (simp add: indicesInRange_def)

lemma processToolCalls_ok:
  assumes "indicesInRange a"
  shows "\<exists>r a'. processToolCalls c ch sse a = Inr (r, a') \<and> indicesInRange a' \<and>
           st_usage (sa_state a') = st_usage (sa_state a) \<and>
           isFinal r = (st_usage (sa_state a) \<noteq> None)"
proof (cases "delta_tool_calls (cc_delta ch)")
  case None
  then show ?thesis using assms
    by (simp add: processToolCalls_def finishChunk_def indicesInRange_def)
next
  case (Some tcs)
  from toolCallsLoop_ok[OF assms, of tcs] obtain a1 where
    a1: "toolCallsLoop tcs a = Inr a1" "indicesInRange a1"
        "st_usage (sa_state a1) = st_usage (sa_state a)" by blast
  then show ?thesis using Some
    by (simp add: processToolCalls_def finishChunk_def indicesInRange_def)
qed

lemma recordChunkHeader_usage:
  "st_usage (recordChunkHeader t c s) \<noteq> None \<longleftrightarrow> st_usage s \<noteq> None \<or> chunk_usage c \<noteq> None"
  by (simp add: recordChunkHeader_def Let_def split: option.splits)

lemma recordChunkHeader_toolCalls:
  "st_toolCalls (recordChunkHeader t c s) = st_toolCalls s"
  by (simp add: recordChunkHeader_def Let_def split: option.splits)

lemma processChunk_ok:
  assumes "indicesInRange a"
  shows "\<exists>r a'. processChunk S t a c = Inr (r, a') \<and> indicesInRange a' \<and>
           isFinal r = (st_usage (sa_state a) \<noteq> None \<or> chunk_usage c \<noteq> None) \<and>
           (st_usage (sa_state a') \<noteq> None) = (st_usage (sa_state a) \<noteq> None \<or> chunk_usage c \<noteq> None)"
proof (cases "chunk_choices c")
  case Nil
  then show ?thesis using assms recordChunkHeader_usage[of t c "sa_state a"]
    by (simp add: processChunk_def Let_def indicesInRange_state recordChunkHeader_toolCalls)
next
  case (Cons ch rest)
  define s' where "s' = (if truthyString (delta_content (cc_delta ch))
       then (recordChunkHeader t c (sa_state a))\<lparr>st_text :=
              st_text (recordChunkHeader t c (sa_state a)) @ orEmpty (delta_content (cc_delta ch))\<rparr>
       else recordChunkHeader t c (sa_state a))"
  have tc: "st_toolCalls s' = st_toolCalls (sa_state a)"
    by (simp add: s'_def recordChunkHeader_toolCalls)
  have us: "(st_usage s' \<noteq> None) = (st_usage (sa_state a) \<noteq> None \<or> chunk_usage c \<noteq> None)"
    using recordChunkHeader_usage[of t c "sa_state a"] by (simp add: s'_def)
  have inv: "indicesInRange (a\<lparr>sa_state := s'\<rparr>)"
    using assms tc by (simp add: indicesInRange_state)
  obtain sse where pc: "processChunk S t a c = processToolCalls c ch sse (a\<lparr>sa_state := s'\<rparr>)"
    using Cons by (simp add: processChunk_def Let_def s'_def)
  from processToolCalls_ok[OF inv, of c ch sse] us show ?thesis
    unfolding pc by auto
qed

lemma processChunk_alt_ok:
  assumes "indicesInRange a"
  shows "\<exists>r a'. processChunk_alt S t a c = Inr (r, a') \<and> indicesInRange a' \<and>
           isFinal r = (st_usage (sa_state a) \<noteq> None \<or> chunk_usage c \<noteq> None) \<and>
           (st_usage (sa_state a') \<noteq> None) = (st_usage (sa_state a) \<noteq> None \<or> chunk_usage c \<noteq> None)"
proof (cases "chunk_choices c")
  case Nil
  then show ?thesis using assms recordChunkHeader_usage[of t c "sa_state a"]
    by (simp add: processChunk_alt_def Let_def indicesInRange_state recordChunkHeader_toolCalls)
next
  case (Cons ch rest)
  obtain s' sse where pc: "processChunk_alt S t a c = processToolCalls c ch sse (a\<lparr>sa_state := s'\<rparr>)"
    and tc: "st_toolCalls s' = st_toolCalls (sa_state a)"
    and us: "st_usage s' = st_usage (recordChunkHeader t c (sa_state a))"
    using Cons by (simp add: processChunk_alt_def Let_def recordChunkHeader_toolCalls)
  have inv: "indicesInRange (a\<lparr>sa_state := s'\<rparr>)"
    using assms tc by (simp add: indicesInRange_state)
  from processToolCalls_ok[OF inv, of c ch sse] us recordChunkHeader_usage[of t c "sa_state a"]
  show ?thesis unfolding pc by auto
qed

lemma ex_le_Suc_Cons:
  "(\<exists>j\<le>Suc i. P ((x # xs) ! j)) \<longleftrightarrow> P x \<or> (\<exists>j\<le>i. P (xs ! j))"
proof
  assume "\<exists>j\<le>Suc i. P ((x # xs) ! j)"
  then obtain j where j: "j \<le> Suc i" "P ((x # xs) ! j)" by blast
  show "P x \<or> (\<exists>j\<le>i. P (xs ! j))"
  proof (cases j)
    case 0
    with j show ?thesis by simp
  next
    case (Suc j')
    with j have "j' \<le> i" "P (xs ! j')" by simp_all
    then show ?thesis by blast
  qed
next
  assume "P x \<or> (\<exists>j\<le>i. P (xs ! j))"
  then show "\<exists>j\<le>Suc i. P ((x # xs) ! j)"
  proof
    assume "P x"
    then have "0 \<le> Suc i \<and> P ((x # xs) ! 0)" by simp
    then show ?thesis by blast
  next
    assume "\<exists>j\<le>i. P (xs ! j)"
    then obtain j where "j \<le> i" "P (xs ! j)" by blast
    then have "Suc j \<le> Suc i \<and> P ((x # xs) ! Suc j)" by simp
    then show ?thesis by blast
  qed
qed

lemma processChunks_ok:
  "indicesInRange a \<Longrightarrow>
   \<exists>rs a'. processChunks S a tcs = Inr (rs, a') \<and> indicesInRange a' \<and> length rs = length tcs \<and>
     (\<forall>i<length tcs. isFinal (rs ! i) =
        (st_usage (sa_state a) \<noteq> None \<or> (\<exists>j\<le>i. chunk_usage (snd (tcs ! j)) \<noteq> None)))"
proof (induction tcs arbitrary: a)
  case Nil
  then show ?case by simp
next
  case (Cons tc tcs)
  obtain t c where tc: "tc = (t, c)" by (cases tc)
  from processChunk_ok[OF Cons.prems, of S t c] obtain r a1 where
    s1: "processChunk S t a c = Inr (r, a1)" "indicesInRange a1"
        "isFinal r = (st_usage (sa_state a) \<noteq> None \<or> chunk_usage c \<noteq> None)"
        "(st_usage (sa_state a1) \<noteq> None) = (st_usage (sa_state a) \<noteq> None \<or> chunk_usage c \<noteq> None)"
    by blast
  from Cons.IH[OF s1(2)] obtain rs a2 where
    s2: "processChunks S a1 tcs = Inr (rs, a2)" "indicesInRange a2" "length rs = length tcs"
        "\<forall>i<length tcs. isFinal (rs ! i) =
           (st_usage (sa_state a1) \<noteq> None \<or> (\<exists>j\<le>i. chunk_usage (snd (tcs ! j)) \<noteq> None))"
    by blast
  have "isFinal ((r # rs) ! i) =
          (st_usage (sa_state a) \<noteq> None \<or> (\<exists>j\<le>i. chunk_usage (snd ((tc # tcs) ! j)) \<noteq> None))"
    if "i < length (tc # tcs)" for i
  proof (cases i)
    case 0
    then show ?thesis using s1(3) tc by simp
  next
    case (Suc i')
    then have "i' < length tcs" using that by simp
    with s2(4) have "isFinal (rs ! i') =
       (st_usage (sa_state a1) \<noteq> None \<or> (\<exists>j\<le>i'. chunk_usage (snd (tcs ! j)) \<noteq> None))" by blast
    moreover have "(\<exists>j\<le>Suc i'. chunk_usage (snd ((tc # tcs) ! j)) \<noteq> None) \<longleftrightarrow>
       chunk_usage c \<noteq> None \<or> (\<exists>j\<le>i'. chunk_usage (snd (tcs ! j)) \<noteq> None)"
      using ex_le_Suc_Cons[of i' "\<lambda>x. chunk_usage (snd x) \<noteq> None" tc tcs] tc by simp
    ultimately show ?thesis using Suc s1(4) by auto
  qed
  then show ?case using s1 s2 tc by simp
qed


subsection \<open>One chunk at a time\<close>





lemma processChunks_alt_ok:
  "indicesInRange a \<Longrightarrow>
   \<exists>rs a'. processChunks_alt S a tcs = Inr (rs, a') \<and> indicesInRange a' \<and> length rs = length tcs \<and>
     (\<forall>i<length tcs. isFinal (rs ! i) =
        (st_usage (sa_state a) \<noteq> None \<or> (\<exists>j\<le>i. chunk_usage (snd (tcs ! j)) \<noteq> None)))"
proof (induction tcs arbitrary: a)
  case Nil
  then show ?case by simp
next
  case (Cons tc tcs)
  obtain t c where tc: "tc = (t, c)" by (cases tc)
  from processChunk_alt_ok[OF Cons.prems, of S t c] obtain r a1 where
    s1: "processChunk_alt S t a c = Inr (r, a1)" "indicesInRange a1"
        "isFinal r = (st_usage (sa_state a) \<noteq> None \<or> chunk_usage c \<noteq> None)"
        "(st_usage (sa_state a1) \<noteq> None) = (st_usage (sa_state a) \<noteq> None \<or> chunk_usage c \<noteq> None)"
    by blast
  from Cons.IH[OF s1(2)] obtain rs a2 where
    s2: "processChunks_alt S a1 tcs = Inr (rs, a2)" "indicesInRange a2" "length rs = length tcs"
        "\<forall>i<length tcs. isFinal (rs ! i) =
           (st_usage (sa_state a1) \<noteq> None \<or> (\<exists>j\<le>i. chunk_usage (snd (tcs ! j)) \<noteq> None))"
    by blast
  have "isFinal ((r # rs) ! i) =
          (st_usage (sa_state a) \<noteq> None \<or> (\<exists>j\<le>i. chunk_usage (snd ((tc # tcs) ! j)) \<noteq> None))"
    if "i < length (tc # tcs)" for i
  proof (cases i)
    case 0
    then show ?thesis using s1(3) tc by simp
  next
    case (Suc i')
    then have "i' < length tcs" using that by simp
    with s2(4) have "isFinal (rs ! i') =
       (st_usage (sa_state a1) \<noteq> None \<or> (\<exists>j\<le>i'. chunk_usage (snd (tcs ! j)) \<noteq> None))" by blast
    moreover have "(\<exists>j\<le>Suc i'. chunk_usage (snd ((tc # tcs) ! j)) \<noteq> None) \<longleftrightarrow>
       chunk_usage c \<noteq> None \<or> (\<exists>j\<le>i'. chunk_usage (snd (tcs ! j)) \<noteq> None)"
      using ex_le_Suc_Cons[of i' "\<lambda>x. chunk_usage (snd x) \<noteq> None" tc tcs] tc by simp
    ultimately show ?thesis using Suc s1(4) by auto
  qed
  then show ?case using s1 s2 tc by simp
qed

lemma processChunks_fresh:
  "\<exists>rs a. processChunks S (createStreamAdapter t0) tcs = Inr (rs, a) \<and>
       length rs = length tcs \<and>
       (\<forall>i<length tcs. isFinal (rs ! i) = (\<exists>j\<le>i. chunk_usage (snd (tcs ! j)) \<noteq> None))"
proof -
  have u: "st_usage (sa_state (createStreamAdapter t0)) = None"
    by (simp add: createStreamAdapter_def)
  from processChunks_ok[OF indicesInRange_create, of S t0 tcs] obtain rs a where
    r: "processChunks S (createStreamAdapter t0) tcs = Inr (rs, a)" "length rs = length tcs"
       "\<forall>i<length tcs. isFinal (rs ! i) =
          (st_usage (sa_state (createStreamAdapter t0)) \<noteq> None \<or>
           (\<exists>j\<le>i. chunk_usage (snd (tcs ! j)) \<noteq> None))"
    by blast
  from r(3) have "\<forall>i<length tcs. isFinal (rs ! i) =
      (\<exists>j\<le>i. chunk_usage (snd (tcs ! j)) \<noteq> None)"
    unfolding u by simp
  with r(1,2) show ?thesis by blast
qed

lemma processChunks_alt_fresh:
  "\<exists>rs a. processChunks_alt S (createStreamAdapter t0) tcs = Inr (rs, a) \<and>
       length rs = length tcs \<and>
       (\<forall>i<length tcs. isFinal (rs ! i) = (\<exists>j\<le>i. chunk_usage (snd (tcs ! j)) \<noteq> None))"
proof -
  have u: "st_usage (sa_state (createStreamAdapter t0)) = None"
    by (simp add: createStreamAdapter_def)
  from processChunks_alt_ok[OF indicesInRange_create, of S t0 tcs] obtain rs a where
    r: "processChunks_alt S (createStreamAdapter t0) tcs = Inr (rs, a)" "length rs = length tcs"
       "\<forall>i<length tcs. isFinal (rs ! i) =
          (st_usage (sa_state (createStreamAdapter t0)) \<noteq> None \<or>
           (\<exists>j\<le>i. chunk_usage (snd (tcs ! j)) \<noteq> None))"
    by blast
  from r(3) have "\<forall>i<length tcs. isFinal (rs ! i) =
      (\<exists>j\<le>i. chunk_usage (snd (tcs ! j)) \<noteq> None)"
    unfolding u by simp
  with r(1,2) show ?thesis by blast
qed

subsection \<open>The end-to-end scenario, step by step\<close>


subsection \<open>The clock does not influence the accumulation\<close>

lemma retime_retime: "retime T (retime T' a) = retime T a"
  by (simp add: retime_def)

lemma applyToolCallDelta_retime:
  "applyToolCallDelta d (retime T a) = map_sum id (retime T) (applyToolCallDelta d a)"
  by (simp add: applyToolCallDelta_def retime_def Let_def split: option.splits)

lemma toolCallsLoop_retime:
  "toolCallsLoop ds (retime T a) = map_sum id (retime T) (toolCallsLoop ds a)"
proof (induction ds arbitrary: a)
  case Nil
  then show ?case by simp
next
  case (Cons d ds)
  then show ?case
    by (cases "applyToolCallDelta d a") (simp_all add: applyToolCallDelta_retime)
qed

lemma finishChunk_retime:
  "finishChunk ch sse b (retime T a) = map_prod id (retime T) (finishChunk ch sse b a)"
  by (simp add: finishChunk_def retime_def Let_def)

lemma processToolCalls_retime:
  "processToolCalls c ch sse (retime T a) =
   map_sum id (map_prod id (retime T)) (processToolCalls c ch sse a)"
proof (cases "delta_tool_calls (cc_delta ch)")
  case None
  then show ?thesis by (simp add: processToolCalls_def finishChunk_retime)
next
  case (Some ds)
  have push: "(retime T x)\<lparr>sa_state := (sa_state (retime T x))\<lparr>st_rawToolCallEvents :=
                  st_rawToolCallEvents (sa_state (retime T x)) @ [c]\<rparr>\<rparr>
      = retime T (x\<lparr>sa_state := (sa_state x)\<lparr>st_rawToolCallEvents :=
                  st_rawToolCallEvents (sa_state x) @ [c]\<rparr>\<rparr>)" for x
    by (simp add: retime_def)
  show ?thesis
  proof (cases "toolCallsLoop ds a")
    case (Inl e)
    then show ?thesis using Some by (simp add: processToolCalls_def toolCallsLoop_retime)
  next
    case (Inr b)
    then show ?thesis using Some
      by (simp only: processToolCalls_def toolCallsLoop_retime option.case sum.case
            map_sum.simps push finishChunk_retime)
  qed
qed

lemma recordChunkHeader_retime:
  "recordChunkHeader t c (s\<lparr>st_timing := T\<rparr>) =
   (recordChunkHeader t' c s)\<lparr>st_timing := st_timing (recordChunkHeader t c (s\<lparr>st_timing := T\<rparr>))\<rparr>"
  by (simp add: recordChunkHeader_def Let_def split: option.splits)

lemma processChunk_retime:
  "\<exists>T'. processChunk S t (retime T a) c =
         map_sum id (map_prod id (retime T')) (processChunk S t' a c)"
proof -
  define T' where "T' = st_timing (recordChunkHeader t c ((sa_state a)\<lparr>st_timing := T\<rparr>))"
  define s0 where "s0 = recordChunkHeader t' c (sa_state a)"
  have hdr: "recordChunkHeader t c ((sa_state a)\<lparr>st_timing := T\<rparr>) = s0\<lparr>st_timing := T'\<rparr>"
    unfolding T'_def s0_def
    using recordChunkHeader_retime[where t = t and c = c and s = "sa_state a" and T = T] .
  have "processChunk S t (retime T a) c =
         map_sum id (map_prod id (retime T')) (processChunk S t' a c)"
  proof (cases "chunk_choices c")
    case Nil
    then show ?thesis
      by (simp add: processChunk_def Let_def retime_def hdr s0_def[symmetric])
  next
    case (Cons ch rest)
    define s1 where "s1 = (if truthyString (delta_content (cc_delta ch))
        then s0\<lparr>st_text := st_text s0 @ orEmpty (delta_content (cc_delta ch))\<rparr> else s0)"
    define sse where "sse = (if delta_reasoning_details (cc_delta ch) \<noteq> None
        then Some (sseFrame S c)
        else if truthyString (delta_content (cc_delta ch)) then Some (sseFrame S c) else None)"
    have R: "processChunk S t' a c = processToolCalls c ch sse (a\<lparr>sa_state := s1\<rparr>)"
      using Cons by (simp add: processChunk_def Let_def s0_def s1_def sse_def)
    define s1L where "s1L = (if truthyString (delta_content (cc_delta ch))
        then (s0\<lparr>st_timing := T'\<rparr>)\<lparr>st_text :=
               st_text s0 @ orEmpty (delta_content (cc_delta ch))\<rparr>
        else s0\<lparr>st_timing := T'\<rparr>)"
    have s1L: "s1L = s1\<lparr>st_timing := T'\<rparr>"
      by (cases s0) (simp add: s1L_def s1_def)
    have "processChunk S t (retime T a) c = processToolCalls c ch sse (a\<lparr>sa_state := s1L\<rparr>)"
      using Cons by (simp add: processChunk_def Let_def retime_def hdr s1L_def sse_def)
    also have "a\<lparr>sa_state := s1L\<rparr> = retime T' (a\<lparr>sa_state := s1\<rparr>)"
      by (simp add: retime_def s1L)
    finally show ?thesis
      by (simp only: R processToolCalls_retime)
  qed
  then show ?thesis by blast
qed

lemma processChunks_retime:
  "map snd tcs = map snd tcs' \<Longrightarrow>
   \<exists>T'. processChunks S (retime T a) tcs =
         map_sum id (map_prod id (retime T')) (processChunks S a tcs')"
proof (induction tcs arbitrary: tcs' a T)
  case Nil
  then have "processChunks S (retime T a) [] =
       map_sum id (map_prod id (retime T)) (processChunks S a tcs')" by simp
  then show ?case by blast
next
  case (Cons tc tcs)
  obtain t c where tc: "tc = (t, c)" by (cases tc)
  from Cons.prems tc obtain t' rest' where tcs': "tcs' = (t', c) # rest'" "map snd tcs = map snd rest'"
    by (cases tcs') auto
  from processChunk_retime[of S t T a c t'] obtain T1 where
    step: "processChunk S t (retime T a) c =
           map_sum id (map_prod id (retime T1)) (processChunk S t' a c)" by blast
  show ?case
  proof (cases "processChunk S t' a c")
    case (Inl e)
    with step tc tcs' have "processChunks S (retime T a) (tc # tcs) =
        map_sum id (map_prod id (retime T)) (processChunks S a tcs')" by simp
    then show ?thesis by blast
  next
    case (Inr ra)
    obtain r a1 where ra: "ra = (r, a1)" by (cases ra)
    from Cons.IH[OF tcs'(2), of T1 a1] obtain T2 where
      ih: "processChunks S (retime T1 a1) tcs =
           map_sum id (map_prod id (retime T2)) (processChunks S a1 rest')" by blast
    have "processChunks S (retime T a) (tc # tcs) =
        map_sum id (map_prod id (retime T2)) (processChunks S a tcs')"
      using step Inr ra ih tc tcs'
      by (cases "processChunks S a1 rest'") auto
    then show ?thesis by blast
  qed
qed

lemma createStreamAdapter_retime:
  "createStreamAdapter t0 = retime \<lparr>startTime = t0, firstChunkTime = None\<rparr> (createStreamAdapter t0')"
  by (simp add: createStreamAdapter_def retime_def)

lemma toProviderResponse_retime:
  "toProviderResponse n (retime T a) = toProviderResponse n a"
  by (simp add: toProviderResponse_def retime_def synthesizedUsage_def Let_def)

lemma toProviderResponse_clock:
  "toProviderResponse n a = (toProviderResponse n' a)\<lparr>resp_created := n div 1000\<rparr>"
  by (simp add: toProviderResponse_def Let_def)

lemma streamToResponse_Some:
  "\<exists>r. streamToResponse S t0 tcs n = Some r"
  using processChunks_fresh[of S t0 tcs] by (auto simp: streamToResponse_def)

lemma streamToResponse_clock_shift:
  assumes "map snd tcs = map snd tcs'"
  shows "\<exists>r. streamToResponse S t0 tcs n = Some r \<and>
             streamToResponse S t0' tcs' n' = Some (r\<lparr>resp_created := n' div 1000\<rparr>)"
proof -
  from processChunks_fresh[of S t0' tcs'] obtain rs a where
    run2: "processChunks S (createStreamAdapter t0') tcs' = Inr (rs, a)" by blast
  from processChunks_retime[OF assms, of S "\<lparr>startTime = t0, firstChunkTime = None\<rparr>"
      "createStreamAdapter t0'"] obtain T' where
    "processChunks S (createStreamAdapter t0) tcs =
       map_sum id (map_prod id (retime T')) (processChunks S (createStreamAdapter t0') tcs')"
    using createStreamAdapter_retime[of t0 t0'] by auto
  with run2 have run1: "processChunks S (createStreamAdapter t0) tcs = Inr (rs, retime T' a)"
    by simp
  have "streamToResponse S t0 tcs n = Some (toProviderResponse n a)"
    using run1 by (simp add: streamToResponse_def toProviderResponse_retime)
  moreover have "streamToResponse S t0' tcs' n' =
      Some ((toProviderResponse n a)\<lparr>resp_created := n' div 1000\<rparr>)"
    using run2 toProviderResponse_clock[of n' a n] by (simp add: streamToResponse_def)
  ultimately show ?thesis by blast
qed

subsection \<open>Finality\<close>

text \<open>
  Claim C2. For every sequence of chunks fed in order to a fresh stream adapter, of
  either copy, \<^verbatim>\<open>processChunk\<close> returns on every chunk without throwing, and the final
  flag it returns for the chunk at position \<open>i\<close> is true exactly when some chunk at a
  position up to \<open>i\<close> carries a usage object: false before the first usage chunk,
  whatever finish reasons came earlier, and true for it and for every chunk after it.
\<close>

theorem finality:
  "(\<exists>fs. finalFlags S t0 tcs = Some fs \<and> length fs = length tcs \<and>
       (\<forall>i<length tcs. fs ! i = (\<exists>j\<le>i. chunk_usage (snd (tcs ! j)) \<noteq> None))) \<and>
   (\<exists>fs. finalFlags_alt S t0 tcs = Some fs \<and> length fs = length tcs \<and>
       (\<forall>i<length tcs. fs ! i = (\<exists>j\<le>i. chunk_usage (snd (tcs ! j)) \<noteq> None)))"
proof -
  from processChunks_fresh[of S t0 tcs] obtain rs a where
    r: "processChunks S (createStreamAdapter t0) tcs = Inr (rs, a)" "length rs = length tcs"
       "\<forall>i<length tcs. isFinal (rs ! i) = (\<exists>j\<le>i. chunk_usage (snd (tcs ! j)) \<noteq> None)"
    by blast
  from processChunks_alt_fresh[of S t0 tcs] obtain rs' a' where
    r': "processChunks_alt S (createStreamAdapter t0) tcs = Inr (rs', a')" "length rs' = length tcs"
       "\<forall>i<length tcs. isFinal (rs' ! i) = (\<exists>j\<le>i. chunk_usage (snd (tcs ! j)) \<noteq> None)"
    by blast
  have "finalFlags S t0 tcs = Some (map isFinal rs)"
    using r(1) by (simp add: finalFlags_def)
  moreover have "finalFlags_alt S t0 tcs = Some (map isFinal rs')"
    using r'(1) by (simp add: finalFlags_alt_def)
  ultimately show ?thesis using r(2,3) r'(2,3) by simp
qed

lemmas stream_eval =
  processChunk_def processChunk_alt_def processToolCalls_def finishChunk_def
  applyToolCallDelta_def mergeToolCallDelta_def recordChunkHeader_def createStreamAdapter_def
  deltaFunctionName_def deltaFunctionArguments_def Let_def
  exampleStream_def fragmentChunk_def fragmentChoice_def fragmentDelta_def
  finishReasonChunk_def finishReasonChoice_def usageChunk_def exampleUsage_def


theorem finality_witness:
  "finalFlags exampleStringify 0 (exampleStream @ [(6, finishReasonChunk)])
     = Some [False, False, False, False, True, True] \<and>
   finalFlags_alt exampleStringify 0 (exampleStream @ [(6, finishReasonChunk)])
     = Some [False, False, False, False, True, True]"
  using finality[of exampleStringify 0 "exampleStream @ [(6, finishReasonChunk)]"]
  by (simp add: finalFlags_def finalFlags_alt_def stream_eval)

subsection \<open>The end-to-end scenario\<close>




subsection \<open>Determinism\<close>

lemma streamToResponse_created:
  "map_option resp_created (streamToResponse S t0 tcs n) = Some (n div 1000)"
  using processChunks_fresh[of S t0 tcs]
  by (auto simp: streamToResponse_def toProviderResponse_def Let_def)


text \<open>
  Claim C9, as amended. The same ordered chunk sequence fed into two fresh stream
  adapters, constructed at any times and reading any clock values while processing,
  yields synthesized responses that agree in every field except \<^verbatim>\<open>created\<close>, which is
  the clock second at which \<^verbatim>\<open>toProviderResponse()\<close> is called. The two responses are
  identical when both calls read the same clock second.
\<close>

theorem stream_determinism:
  assumes "map snd tcs = map snd tcs'"
  shows "\<exists>r. streamToResponse S t0 tcs n = Some r \<and> resp_created r = n div 1000 \<and>
             streamToResponse S t0' tcs' n' = Some (r\<lparr>resp_created := n' div 1000\<rparr>)"
  using streamToResponse_clock_shift[OF assms, of S t0 n t0' n'] streamToResponse_created[of S t0 tcs n]
  by auto

theorem stream_determinism_witness:
  "streamToResponse exampleStringify 0 exampleStream 6000 =
   streamToResponse exampleStringify 777 (map (\<lambda>(t, c). (t + 1000, c)) exampleStream) 6999"
proof -
  have "map snd exampleStream = map snd (map (\<lambda>(t, c). (t + 1000, c)) exampleStream)"
    by (simp add: exampleStream_def)
  from stream_determinism[OF this, of exampleStringify 0 6000 777 6999]
  obtain r where r: "streamToResponse exampleStringify 0 exampleStream 6000 = Some r"
    "resp_created r = 6000 div 1000"
    "streamToResponse exampleStringify 777 (map (\<lambda>(t, c). (t + 1000, c)) exampleStream) 6999
       = Some (r\<lparr>resp_created := 6999 div 1000\<rparr>)" by blast
  have "r\<lparr>resp_created := 6999 div 1000\<rparr> = r"
    using r(2) by (cases r) simp
  with r show ?thesis by simp
qed


text \<open>
  The same stream fed to two fresh adapters, with \<^verbatim>\<open>toProviderResponse()\<close> called one
  second apart: the two responses differ, in \<^verbatim>\<open>created\<close>.
\<close>

theorem stream_determinism_counterexample:
  "streamToResponse exampleStringify 0 exampleStream 6000 \<noteq>
   streamToResponse exampleStringify 0 exampleStream 7000"
proof
  assume "streamToResponse exampleStringify 0 exampleStream 6000 =
          streamToResponse exampleStringify 0 exampleStream 7000"
  then have "map_option resp_created (streamToResponse exampleStringify 0 exampleStream 6000) =
             map_option resp_created (streamToResponse exampleStringify 0 exampleStream 7000)"
    by simp
  then show False by (simp add: streamToResponse_created)
qed

section \<open>Properties of the compression\<close>

lemma tryCompress_None_iff:
  "tryCompress env c = None \<longleftrightarrow>
   \<not> (\<exists>u v z b a. unwrapToolContent env c = Some u \<and> JSON_parse env u = Some v \<and>
        toonEncode env v = Some z \<and> countTokens env u = Some b \<and> countTokens env z = Some a)"
  by (auto simp: tryCompress_def split: option.splits)

lemma tryCompress_unparsable:
  "(\<forall>u. unwrapToolContent env c = Some u \<longrightarrow> JSON_parse env u = None) \<Longrightarrow>
   tryCompress env c = None"
  by (auto simp: tryCompress_def split: option.splits)

lemma toonLoop_length: "length (fst (toonLoop env ms k)) = length ms"
  by (induction env ms k rule: toonLoop.induct) (auto simp: case_prod_beta split: option.splits)

lemma toonLoop_skip:
  "tryCompress env c = None \<Longrightarrow>
   toonLoop env (ToolMessage (TextContent c) tid # ms) k =
     (ToolMessage (TextContent c) tid # fst (toonLoop env ms k), snd (toonLoop env ms k))"
  by (simp add: case_prod_beta)

lemma toonLoop_append:
  "toonLoop env (xs @ ys) k =
     (fst (toonLoop env xs k) @ fst (toonLoop env ys (snd (toonLoop env xs k))),
      snd (toonLoop env ys (snd (toonLoop env xs k))))"
  by (induction env xs k rule: toonLoop.induct) (auto simp: case_prod_beta split: option.splits)

lemma toonLoop_unchanged:
  assumes "i < length ms" "ms ! i = ToolMessage (TextContent c) tid" "tryCompress env c = None"
  shows "fst (toonLoop env ms k) ! i = ToolMessage (TextContent c) tid"
    and "snd (toonLoop env (take i ms @ drop (Suc i) ms) k) = snd (toonLoop env ms k)"
proof -
  have ms: "ms = take i ms @ ToolMessage (TextContent c) tid # drop (Suc i) ms"
    using assms(1,2) by (metis id_take_nth_drop)
  have len: "length (fst (toonLoop env (take i ms) k)) = i"
    using assms(1) by (simp add: toonLoop_length)
  have "toonLoop env ms k =
      toonLoop env (take i ms @ ToolMessage (TextContent c) tid # drop (Suc i) ms) k"
    using ms by simp
  also have "\<dots> = (fst (toonLoop env (take i ms) k) @
        ToolMessage (TextContent c) tid #
          fst (toonLoop env (drop (Suc i) ms) (snd (toonLoop env (take i ms) k))),
        snd (toonLoop env (drop (Suc i) ms) (snd (toonLoop env (take i ms) k))))"
    by (simp only: toonLoop_append toonLoop_skip[OF assms(3)] fst_conv snd_conv)
  finally have full: "toonLoop env ms k = (fst (toonLoop env (take i ms) k) @
        ToolMessage (TextContent c) tid #
          fst (toonLoop env (drop (Suc i) ms) (snd (toonLoop env (take i ms) k))),
        snd (toonLoop env (drop (Suc i) ms) (snd (toonLoop env (take i ms) k))))" .
  show "fst (toonLoop env ms k) ! i = ToolMessage (TextContent c) tid"
    using len by (simp add: full nth_append)
  show "snd (toonLoop env (take i ms @ drop (Suc i) ms) k) = snd (toonLoop env ms k)"
    by (simp add: full toonLoop_append)
qed

lemma toonLoop_Cons:
  "toonLoop env (m # ms) k =
     (case m of
        ToolMessage (TextContent c) tid \<Rightarrow>
          (case tryCompress env c of
             Some (z, b, a) \<Rightarrow>
               (ToolMessage (TextContent z) tid #
                  fst (toonLoop env ms
                         \<lparr>toolResultCount = toolResultCount k + 1,
                          totalTokensBefore = totalTokensBefore k + b,
                          totalTokensAfter = totalTokensAfter k + a\<rparr>),
                snd (toonLoop env ms
                       \<lparr>toolResultCount = toolResultCount k + 1,
                        totalTokensBefore = totalTokensBefore k + b,
                        totalTokensAfter = totalTokensAfter k + a\<rparr>))
           | None \<Rightarrow> (m # fst (toonLoop env ms k), snd (toonLoop env ms k)))
      | _ \<Rightarrow> (m # fst (toonLoop env ms k), snd (toonLoop env ms k)))"
proof (cases m)
  case (ToolMessage content tid)
  then show ?thesis
    by (cases content) (simp_all add: case_prod_beta split: option.splits)
qed (simp_all add: case_prod_beta)

lemma toonLoop_count_mono:
  "toolResultCount k \<le> toolResultCount (snd (toonLoop env ms k))"
proof (induction ms arbitrary: k)
  case Nil
  then show ?case by simp
next
  case (Cons m ms)
  have "toolResultCount k \<le> toolResultCount (snd (toonLoop env ms
        \<lparr>toolResultCount = toolResultCount k + 1,
         totalTokensBefore = b, totalTokensAfter = a\<rparr>))" for a b
    using Cons[of "\<lparr>toolResultCount = toolResultCount k + 1,
         totalTokensBefore = b, totalTokensAfter = a\<rparr>"] by simp
  then show ?case
    using Cons[of k]
    by (simp add: toonLoop_Cons split: message.splits textContent.splits option.splits)
qed

lemma toonLoop_count_zero:
  "toolResultCount (snd (toonLoop env ms k)) = toolResultCount k \<longleftrightarrow>
   (\<forall>c tid. ToolMessage (TextContent c) tid \<in> set ms \<longrightarrow> tryCompress env c = None)"
proof (induction ms arbitrary: k)
  case Nil
  then show ?case by simp
next
  case (Cons m ms)
  have grow: "toolResultCount (snd (toonLoop env ms
        \<lparr>toolResultCount = toolResultCount k + 1,
         totalTokensBefore = b, totalTokensAfter = a\<rparr>)) \<noteq> toolResultCount k" for a b
    using toonLoop_count_mono[of "\<lparr>toolResultCount = toolResultCount k + 1,
         totalTokensBefore = b, totalTokensAfter = a\<rparr>" env ms] by simp
  show ?case
  proof (cases "\<exists>c tid. m = ToolMessage (TextContent c) tid")
    case True
    then obtain c tid where m: "m = ToolMessage (TextContent c) tid" by blast
    show ?thesis
    proof (cases "tryCompress env c")
      case None
      then show ?thesis using Cons[of k] m by (auto simp: toonLoop_Cons)
    next
      case (Some r)
      then show ?thesis using grow m by (cases r) (auto simp: toonLoop_Cons)
    qed
  next
    case False
    then have "toonLoop env (m # ms) k = (m # fst (toonLoop env ms k), snd (toonLoop env ms k))"
      by (simp add: toonLoop_Cons split: message.splits textContent.splits)
    then show ?thesis using Cons[of k] False by auto
  qed
qed

lemma convert_null_iff:
  "toonTokensBefore (snd (convertToolResultsToToon env ms m)) = None \<longleftrightarrow>
   (\<forall>c tid. ToolMessage (TextContent c) tid \<in> set ms \<longrightarrow> tryCompress env c = None)"
  "toonTokensAfter (snd (convertToolResultsToToon env ms m)) = None \<longleftrightarrow>
   (\<forall>c tid. ToolMessage (TextContent c) tid \<in> set ms \<longrightarrow> tryCompress env c = None)"
  using toonLoop_count_zero[of env ms
      "\<lparr>toolResultCount = 0, totalTokensBefore = 0, totalTokensAfter = 0\<rparr>"]
  by (auto simp: convertToolResultsToToon_def Let_def case_prod_beta)

lemma convert_unchanged:
  assumes "i < length ms" "ms ! i = ToolMessage (TextContent c) tid" "tryCompress env c = None"
  shows "fst (convertToolResultsToToon env ms m) ! i = ToolMessage (TextContent c) tid"
    and "snd (convertToolResultsToToon env (take i ms @ drop (Suc i) ms) m) =
         snd (convertToolResultsToToon env ms m)"
  using toonLoop_unchanged[OF assms, of
      "\<lparr>toolResultCount = 0, totalTokensBefore = 0, totalTokensAfter = 0\<rparr>"]
  by (simp_all add: convertToolResultsToToon_def Let_def case_prod_beta)

text \<open>
  Claim C7. When the content of a tool message is a string that does not parse as JSON
  after unwrapping (the unwrapping throws, or the parser rejects what it returns),
  \<^verbatim>\<open>applyToonCompression\<close> leaves that message as it was, and the result it returns is
  the one it returns for the request without that message. \<^verbatim>\<open>tokensBefore\<close> and
  \<^verbatim>\<open>tokensAfter\<close> are null exactly when the \<^verbatim>\<open>try\<close> block completes for no tool message
  with string content, that is, when for none of them the content unwraps, parses,
  encodes and is counted by the tokenizer before and after.
\<close>

theorem compression_safety:
  "(i < length (req_messages (ra_request a)) \<longrightarrow>
    req_messages (ra_request a) ! i = ToolMessage (TextContent c) tid \<longrightarrow>
    (\<forall>u. unwrapToolContent env c = Some u \<longrightarrow> JSON_parse env u = None) \<longrightarrow>
      req_messages (ra_request (snd (applyToonCompression env m a))) ! i
        = ToolMessage (TextContent c) tid \<and>
      fst (applyToonCompression env m
             (a\<lparr>ra_request := (ra_request a)\<lparr>req_messages :=
                  take i (req_messages (ra_request a)) @
                  drop (Suc i) (req_messages (ra_request a))\<rparr>\<rparr>))
        = fst (applyToonCompression env m a)) \<and>
   (tokensBefore (fst (applyToonCompression env m a)) = None \<longleftrightarrow>
      (\<forall>c' tid'. ToolMessage (TextContent c') tid' \<in> set (req_messages (ra_request a)) \<longrightarrow>
         tryCompress env c' = None)) \<and>
   (tokensAfter (fst (applyToonCompression env m a)) = None \<longleftrightarrow>
      (\<forall>c' tid'. ToolMessage (TextContent c') tid' \<in> set (req_messages (ra_request a)) \<longrightarrow>
         tryCompress env c' = None)) \<and>
   (tryCompress env c = None \<longleftrightarrow>
      \<not> (\<exists>u v z tb ta. unwrapToolContent env c = Some u \<and> JSON_parse env u = Some v \<and>
            toonEncode env v = Some z \<and> countTokens env u = Some tb \<and>
            countTokens env z = Some ta))"
proof -
  have 1: "req_messages (ra_request (snd (applyToonCompression env m a))) ! i
        = ToolMessage (TextContent c) tid \<and>
      fst (applyToonCompression env m
             (a\<lparr>ra_request := (ra_request a)\<lparr>req_messages :=
                  take i (req_messages (ra_request a)) @
                  drop (Suc i) (req_messages (ra_request a))\<rparr>\<rparr>))
        = fst (applyToonCompression env m a)"
    if "i < length (req_messages (ra_request a))"
      "req_messages (ra_request a) ! i = ToolMessage (TextContent c) tid"
      "\<forall>u. unwrapToolContent env c = Some u \<longrightarrow> JSON_parse env u = None"
    using convert_unchanged[OF that(1,2) tryCompress_unparsable[OF that(3)], of m]
    by (simp add: applyToonCompression_def case_prod_beta)
  have 2: "tokensBefore (fst (applyToonCompression env m a)) = None \<longleftrightarrow>
      (\<forall>c' tid'. ToolMessage (TextContent c') tid' \<in> set (req_messages (ra_request a)) \<longrightarrow>
         tryCompress env c' = None)"
    using convert_null_iff(1)[of env "req_messages (ra_request a)" m]
    by (simp add: applyToonCompression_def case_prod_beta)
  have 3: "tokensAfter (fst (applyToonCompression env m a)) = None \<longleftrightarrow>
      (\<forall>c' tid'. ToolMessage (TextContent c') tid' \<in> set (req_messages (ra_request a)) \<longrightarrow>
         tryCompress env c' = None)"
    using convert_null_iff(2)[of env "req_messages (ra_request a)" m]
    by (simp add: applyToonCompression_def case_prod_beta)
  show ?thesis
    using 1 2 3 tryCompress_None_iff[of env c] by blast
qed

lemmas toon_eval =
  applyToonCompression_def convertToolResultsToToon_def createRequestAdapter_def
  exampleRequest_def exampleMessages_def tryCompress_def exampleEnv_def exampleParse_def
  exampleToolCall_def

theorem compression_safety_witness:
  "req_messages (ra_request (snd (applyToonCompression exampleEnv ''MiniMax-M2''
      (createRequestAdapter exampleRequest)))) ! 3 = ToolMessage (TextContent ''sunny'') ''call_999'' \<and>
   fst (applyToonCompression exampleEnv ''MiniMax-M2'' (createRequestAdapter exampleRequest))
     = \<lparr>tokensBefore = Some 19, tokensAfter = Some 15, costSavings = None\<rparr> \<and>
   fst (applyToonCompression exampleEnv ''MiniMax-M2''
          (createRequestAdapter (exampleRequest\<lparr>req_messages := take 3 exampleMessages\<rparr>)))
     = \<lparr>tokensBefore = Some 19, tokensAfter = Some 15, costSavings = None\<rparr> \<and>
   tokensBefore (fst (applyToonCompression exampleEnv ''MiniMax-M2''
      (createRequestAdapter (exampleRequest\<lparr>req_messages := drop 3 exampleMessages\<rparr>)))) = None"
proof -
  have unparsable: "\<forall>u. unwrapToolContent exampleEnv ''sunny'' = Some u \<longrightarrow>
      JSON_parse exampleEnv u = None"
    by (simp add: exampleEnv_def exampleParse_def)
  have stats: "fst (applyToonCompression exampleEnv ''MiniMax-M2'' (createRequestAdapter exampleRequest))
     = \<lparr>tokensBefore = Some 19, tokensAfter = Some 15, costSavings = None\<rparr>"
    by (simp add: toon_eval)
  have none: "\<forall>c' tid'. ToolMessage (TextContent c') tid' \<in>
      set (req_messages (ra_request
        (createRequestAdapter (exampleRequest\<lparr>req_messages := drop 3 exampleMessages\<rparr>)))) \<longrightarrow>
         tryCompress exampleEnv c' = None"
    by (simp add: toon_eval numeral_3_eq_3)
  note T = compression_safety[where env = exampleEnv and m = "''MiniMax-M2''"]
  from T[where a = "createRequestAdapter exampleRequest" and i = 3 and c = "''sunny''"
      and tid = "''call_999''"] unparsable stats
  have "req_messages (ra_request (snd (applyToonCompression exampleEnv ''MiniMax-M2''
      (createRequestAdapter exampleRequest)))) ! 3 = ToolMessage (TextContent ''sunny'') ''call_999'' \<and>
   fst (applyToonCompression exampleEnv ''MiniMax-M2''
          (createRequestAdapter (exampleRequest\<lparr>req_messages := take 3 exampleMessages\<rparr>)))
     = \<lparr>tokensBefore = Some 19, tokensAfter = Some 15, costSavings = None\<rparr>"
    by (simp add: createRequestAdapter_def exampleRequest_def)
       (simp add: exampleMessages_def numeral_3_eq_3)
  moreover from T[where a = "createRequestAdapter
      (exampleRequest\<lparr>req_messages := drop 3 exampleMessages\<rparr>)" and c = "''sunny''"] none
  have "tokensBefore (fst (applyToonCompression exampleEnv ''MiniMax-M2''
      (createRequestAdapter (exampleRequest\<lparr>req_messages := drop 3 exampleMessages\<rparr>)))) = None"
    by blast
  ultimately show ?thesis using stats by simp
qed

section \<open>Properties of the held request\<close>









section \<open>Properties of the error message extraction\<close>

lemma showNat_nonempty: "showNat n \<noteq> []"
  by (subst showNat.simps) simp

lemma finiteToString_nonempty: "ds \<noteq> [] \<Longrightarrow> finiteToString ds n \<noteq> []"
  by (simp add: finiteToString_def Let_def)

lemma numberToString_nonempty: "numberToString x \<noteq> []"
  by (cases x) (simp_all add: finiteToString_nonempty showNat_nonempty)

lemma js_String_empty:
  "js_String v = [] \<Longrightarrow>
   v = JSString [] \<or> (\<exists>xs. v = JSArray xs) \<or> (\<exists>ps. v = JSError [] [] ps)"
  by (cases v) (auto simp: numberToString_nonempty split: if_splits)

lemma truthy_string: "truthy v \<Longrightarrow> isString v \<Longrightarrow> v \<noteq> JSString []"
  by (cases v) auto

lemma extractErrorMessage_alt_string: "\<exists>s. extractErrorMessage_alt err = Inr (JSString s)"
proof (cases "isString (lodashGetErrorMessage err)")
  case True
  then show ?thesis
    by (cases "lodashGetErrorMessage err") (simp_all add: extractErrorMessage_alt_def)
next
  case False
  then show ?thesis
    by (cases err) (simp_all add: extractErrorMessage_alt_def)
qed

text \<open>
  Claim C6, as amended. Values are plain data and \<^verbatim>\<open>Error\<close> instances.

  The adapter's \<^verbatim>\<open>extractErrorMessage\<close> returns \<^verbatim>\<open>error.message\<close> when that is truthy;
  otherwise \<^verbatim>\<open>message\<close> when that is truthy; otherwise \<^verbatim>\<open>String(value)\<close>, which throws
  a \<^verbatim>\<open>TypeError\<close> when the value (or, for an array, an element) is an object with an own
  property \<^verbatim>\<open>toString\<close>. It never returns undefined. So for a value shaped
  \<^verbatim>\<open>{error:{message:"bad key"}}\<close> it returns \<^verbatim>\<open>bad key\<close>, for a plain \<^verbatim>\<open>Error("boom")\<close> it
  returns \<^verbatim>\<open>boom\<close>, and what it returns is a non-empty string whenever the property it
  returns is a string; the string of the fallback is empty only for the empty string,
  for an array, or for an \<^verbatim>\<open>Error\<close> with empty name and message.

  The second copy returns \<^verbatim>\<open>error.message\<close> (read the way lodash reads the path) when
  that is a string; otherwise the message of an \<^verbatim>\<open>Error\<close>; otherwise
  \<^verbatim>\<open>Internal server error\<close>. It never throws and always returns a string.
\<close>

theorem error_message_normalization:
  "(truthy (getProp (getProp err ''error'') ''message'') \<longrightarrow>
      extractErrorMessage err = Inr (getProp (getProp err ''error'') ''message'')) \<and>
   (\<not> truthy (getProp (getProp err ''error'') ''message'') \<longrightarrow>
    truthy (getProp err ''message'') \<longrightarrow>
      extractErrorMessage err = Inr (getProp err ''message'')) \<and>
   (\<not> truthy (getProp (getProp err ''error'') ''message'') \<longrightarrow>
    \<not> truthy (getProp err ''message'') \<longrightarrow>
      extractErrorMessage err =
        (if throwsOnString err then Inl TypeError else Inr (JSString (js_String err))) \<and>
      (js_String err = [] \<longrightarrow>
         err = JSString [] \<or> (\<exists>xs. err = JSArray xs) \<or> (\<exists>ps. err = JSError [] [] ps))) \<and>
   (getProp (getProp err ''error'') ''message'' = JSString s \<longrightarrow> s \<noteq> [] \<longrightarrow>
      extractErrorMessage err = Inr (JSString s)) \<and>
   (\<not> truthy (getProp (getProp err ''error'') ''message'') \<longrightarrow>
    getProp err ''message'' = JSString s \<longrightarrow> s \<noteq> [] \<longrightarrow>
      extractErrorMessage err = Inr (JSString s)) \<and>
   (m \<noteq> [] \<longrightarrow> extractErrorMessage (JSError n m []) = Inr (JSString m)) \<and>
   extractErrorMessage err \<noteq> Inr JSUndefined \<and>
   (isString (lodashGetErrorMessage err) \<longrightarrow>
      extractErrorMessage_alt err = Inr (lodashGetErrorMessage err)) \<and>
   (\<not> isString (lodashGetErrorMessage err) \<longrightarrow> err = JSError n' m' ps' \<longrightarrow>
      extractErrorMessage_alt err = Inr (JSString m')) \<and>
   (\<not> isString (lodashGetErrorMessage err) \<longrightarrow> \<not> isError err \<longrightarrow>
      extractErrorMessage_alt err = Inr (JSString ''Internal server error'')) \<and>
   (getProp (getProp err ''error'') ''message'' = JSString s \<longrightarrow>
    \<not> hasOwnKey err ''error.message'' \<longrightarrow>
      extractErrorMessage_alt err = Inr (JSString s)) \<and>
   extractErrorMessage_alt (JSError n m []) = Inr (JSString m) \<and>
   (\<exists>t. extractErrorMessage_alt err = Inr (JSString t))"
proof -
  have c1: "truthy (getProp (getProp err ''error'') ''message'') \<longrightarrow>
      extractErrorMessage err = Inr (getProp (getProp err ''error'') ''message'')"
    by (simp add: extractErrorMessage_def)
  have c2: "\<not> truthy (getProp (getProp err ''error'') ''message'') \<longrightarrow>
      truthy (getProp err ''message'') \<longrightarrow>
      extractErrorMessage err = Inr (getProp err ''message'')"
    by (simp add: extractErrorMessage_def)
  have c3: "\<not> truthy (getProp (getProp err ''error'') ''message'') \<longrightarrow>
      \<not> truthy (getProp err ''message'') \<longrightarrow>
      extractErrorMessage err =
        (if throwsOnString err then Inl TypeError else Inr (JSString (js_String err))) \<and>
      (js_String err = [] \<longrightarrow>
         err = JSString [] \<or> (\<exists>xs. err = JSArray xs) \<or> (\<exists>ps. err = JSError [] [] ps))"
    using js_String_empty[of err] by (simp add: extractErrorMessage_def)
  have c4: "getProp (getProp err ''error'') ''message'' = JSString s \<longrightarrow> s \<noteq> [] \<longrightarrow>
      extractErrorMessage err = Inr (JSString s)"
    by (simp add: extractErrorMessage_def)
  have c4b: "\<not> truthy (getProp (getProp err ''error'') ''message'') \<longrightarrow>
      getProp err ''message'' = JSString s \<longrightarrow> s \<noteq> [] \<longrightarrow>
      extractErrorMessage err = Inr (JSString s)"
    by (simp add: extractErrorMessage_def)
  have c5: "m \<noteq> [] \<longrightarrow> extractErrorMessage (JSError n m []) = Inr (JSString m)"
    by (simp add: extractErrorMessage_def)
  have c6: "extractErrorMessage err \<noteq> Inr JSUndefined"
    by (auto simp: extractErrorMessage_def)
  have c7: "isString (lodashGetErrorMessage err) \<longrightarrow>
      extractErrorMessage_alt err = Inr (lodashGetErrorMessage err)"
    by (simp add: extractErrorMessage_alt_def)
  have c8: "\<not> isString (lodashGetErrorMessage err) \<longrightarrow> err = JSError n' m' ps' \<longrightarrow>
      extractErrorMessage_alt err = Inr (JSString m')"
    by (auto simp: extractErrorMessage_alt_def)
  have c9: "\<not> isString (lodashGetErrorMessage err) \<longrightarrow> \<not> isError err \<longrightarrow>
      extractErrorMessage_alt err = Inr (JSString ''Internal server error'')"
    by (simp add: extractErrorMessage_alt_def)
  have c10: "getProp (getProp err ''error'') ''message'' = JSString s \<longrightarrow>
      \<not> hasOwnKey err ''error.message'' \<longrightarrow>
      extractErrorMessage_alt err = Inr (JSString s)"
    by (simp add: extractErrorMessage_alt_def lodashGetErrorMessage_def)
  have c11: "extractErrorMessage_alt (JSError n m []) = Inr (JSString m)"
    by (simp add: extractErrorMessage_alt_def lodashGetErrorMessage_def)
  have c12: "\<exists>t. extractErrorMessage_alt err = Inr (JSString t)"
    by (rule extractErrorMessage_alt_string)
  show ?thesis
    by (intro conjI) (fact c1 c2 c3 c4 c4b c5 c6 c7 c8 c9 c10 c11 c12)+
qed

theorem error_message_normalization_witness:
  "extractErrorMessage (JSObject [(''error'', JSObject [(''message'', JSString ''bad key'')])])
     = Inr (JSString ''bad key'') \<and>
   extractErrorMessage_alt (JSObject [(''error'', JSObject [(''message'', JSString ''bad key'')])])
     = Inr (JSString ''bad key'') \<and>
   extractErrorMessage (JSError ''Error'' ''boom'' []) = Inr (JSString ''boom'') \<and>
   extractErrorMessage_alt (JSError ''Error'' ''boom'' []) = Inr (JSString ''boom'') \<and>
   extractErrorMessage (JSObject [(''message'', JSString ''rate limited'')])
     = Inr (JSString ''rate limited'') \<and>
   extractErrorMessage (JSNumber (Finite False 42 2)) = Inr (JSString ''42'') \<and>
   extractErrorMessage (JSNumber (Finite False 1 22)) = Inr (JSString ''1e+21'') \<and>
   extractErrorMessage_alt (JSNumber (Finite False 42 2))
     = Inr (JSString ''Internal server error'')"
proof -
  have 42: "js_String (JSNumber (Finite False 42 2)) = ''42''"
    by (simp add: finiteToString_def showNat.simps)
  have 21: "js_String (JSNumber (Finite False 1 22)) = ''1e+21''"
    by (simp add: finiteToString_def showNat.simps)
  note T = error_message_normalization[where n = "''Error''" and m = "''boom''"
      and n' = "''Error''" and m' = "''boom''" and ps' = "[]"]
  show ?thesis
    using T[where err = "JSObject [(''error'', JSObject [(''message'', JSString ''bad key'')])]"
        and s = "''bad key''"]
      T[where err = "JSObject [(''message'', JSString ''rate limited'')]"
        and s = "''rate limited''"]
      T[where err = "JSNumber (Finite False 42 2)" and s = "''x''"]
      T[where err = "JSNumber (Finite False 1 22)" and s = "''x''"]
      42 21
    by (simp add: lodashGetErrorMessage_def)
qed

text \<open>
  The adapter's fallback on the empty string: \<^verbatim>\<open>String("")\<close> is the empty string. And
  on an object whose own property \<^verbatim>\<open>toString\<close> is null, the fallback throws.
\<close>

theorem error_message_normalization_counterexample:
  "extractErrorMessage (JSString []) = Inr (JSString []) \<and>
   extractErrorMessage (JSObject [(''toString'', JSNull)]) = Inl TypeError"
  by (simp add: extractErrorMessage_def)

end
